theory Spec2Isabelle
  imports Complex_Main "HOL-Library.Sublist"
begin

section \<open>Data model of the sales forecast simulator (src/app.py)\<close>

text \<open>
  The program works on pandas data frames of floats. A cell is a finite number or
  missing (NaN); rounding is not modelled, a float is read as the real number it
  denotes, and a division by zero, which in floats gives an infinity or NaN, gives
  the missing cell. The date column \<open>fecha\<close> holds the ordinal number of the date, so
  that sorting by it is sorting by date. Text columns are outside the model.

  A row (a pandas Series) maps a column label to its cell. A frame has the ordered
  list of its column labels and its rows, in index order; after \<open>reset_index\<close> the
  index of a row is its position.
\<close>

datatype cell = Num real | NaN

type_synonym row = "string \<rightharpoonup> cell"

record frame =
  columns :: "string list"
  rows :: "row list"

text \<open>Every row of a pandas frame has exactly the frame's columns.\<close>

definition wf_frame :: "frame \<Rightarrow> bool" where
  "wf_frame df = (\<forall>r \<in> set (rows df). dom r = set (columns df))"

text \<open>Reading a label: a label the row lacks reads as missing, as \<open>reindex\<close> gives.\<close>

definition cell_of :: "row \<Rightarrow> string \<Rightarrow> cell" where
  "cell_of r c = (case r c of Some v \<Rightarrow> v | None \<Rightarrow> NaN)"

text \<open>The entry of the row at position \<open>i\<close> under label \<open>c\<close>, for \<open>i < len(df)\<close>.\<close>

definition cell_at :: "frame \<Rightarrow> nat \<Rightarrow> string \<Rightarrow> cell option" where
  "cell_at df i c = (rows df ! i) c"

fun notna :: "cell \<Rightarrow> bool" where
  "notna (Num x) = True"
| "notna NaN = False"

text \<open>\<open>series * k\<close> and \<open>series / series\<close>, cell by cell.\<close>

fun cell_scale :: "cell \<Rightarrow> real \<Rightarrow> cell" where
  "cell_scale (Num x) k = Num (x * k)"
| "cell_scale NaN k = NaN"

fun cell_div :: "cell \<Rightarrow> cell \<Rightarrow> cell" where
  "cell_div (Num a) (Num b) = (if b = 0 then NaN else Num (a / b))"
| "cell_div _ _ = NaN"

text \<open>\<open>np.mean\<close> of a list of floats; the program calls it on non-empty lists only.\<close>

definition mean :: "real list \<Rightarrow> real" where
  "mean xs = sum_list xs / real (length xs)"

text \<open>
  \<open>df[c] = values\<close>: an existing column is overwritten in place, a new one is
  appended as the last column. The values are given row by row, either computed from
  the row (a column expression or a broadcast scalar) or taken from a list.
\<close>

definition add_label :: "string list \<Rightarrow> string \<Rightarrow> string list" where
  "add_label cs c = (if c \<in> set cs then cs else cs @ [c])"

definition set_column :: "frame \<Rightarrow> string \<Rightarrow> (row \<Rightarrow> cell) \<Rightarrow> frame" where
  "set_column df c g =
     \<lparr>columns = add_label (columns df) c, rows = map (\<lambda>r. r(c \<mapsto> g r)) (rows df)\<rparr>"

definition set_column_list :: "frame \<Rightarrow> string \<Rightarrow> cell list \<Rightarrow> frame" where
  "set_column_list df c vs =
     \<lparr>columns = add_label (columns df) c,
      rows = map (\<lambda>(r, v). r(c \<mapsto> v)) (zip (rows df) vs)\<rparr>"

section \<open>Lag State Updater: \<open>update_lags\<close>\<close>

text \<open>The column names \<open>f'unidades_vendidas_lag{lag}'\<close>: decimal digits of \<open>lag\<close>.\<close>

definition digit_char :: "nat \<Rightarrow> char" where
  "digit_char n = ''0123456789'' ! n"

fun str_nat :: "nat \<Rightarrow> string" where
  "str_nat n = (if n < 10 then [digit_char n] else str_nat (n div 10) @ [digit_char (n mod 10)])"

declare str_nat.simps [simp del]

definition lag_col :: "nat \<Rightarrow> string" where
  "lag_col lag = ''unidades_vendidas_lag'' @ str_nat lag"

definition ma7_col :: string where
  "ma7_col = ''unidades_vendidas_ma7''"

text \<open>
  One pass of the loop body of \<open>update_lags\<close>:
  \<^verbatim>\<open>if f'unidades_vendidas_lag{lag-1}' in row.index: row[col] = row[f'unidades_vendidas_lag{lag-1}']\<close>
  Assigning to a label the Series lacks adds the label.
\<close>

definition shift_lag :: "row \<Rightarrow> nat \<Rightarrow> row" where
  "shift_lag r lag =
     (case r (lag_col (lag - 1)) of
        None \<Rightarrow> r
      | Some v \<Rightarrow> r(lag_col lag \<mapsto> v))"

text \<open>The loop \<open>for lag in range(7, 1, -1)\<close>: 7, 6, 5, 4, 3, 2.\<close>

definition shift_lags :: "row \<Rightarrow> row" where
  "shift_lags r = foldl shift_lag r [7, 6, 5, 4, 3, 2]"

text \<open>
  \<open>update_lags(row, previous_pred, lag_history)\<close>. The function changes the Series and
  the list it is given and returns them; its only caller hands it fresh copies, so
  the model returns the new values.
\<close>

definition update_lags :: "row \<Rightarrow> real \<Rightarrow> real list \<Rightarrow> row \<times> real list" where
  "update_lags r previous_pred lag_history =
     (let r1 = shift_lags r;
          r2 = r1(lag_col 1 \<mapsto> Num previous_pred);
          h1 = lag_history @ [previous_pred];
          h2 = (if length h1 > 7 then tl h1 else h1);
          r3 = r2(ma7_col \<mapsto> Num (mean h2))
      in (r3, h2))"

section \<open>Feature Resolver: \<open>prepare_prediction_data\<close>\<close>

text \<open>Exceptions of the program are values: \<open>Inl\<close> of the error raised.\<close>

datatype error = KeyError string | IndexError

text \<open>
  The body of the loop over \<open>feature_cols\<close>. Both branches of the inner test assign
  the scalar 0 to the whole new column.
\<close>

definition fill_missing :: "frame \<Rightarrow> string \<Rightarrow> frame" where
  "fill_missing df_pred col =
     (if col \<notin> set (columns df_pred) then
        (if list_ex (\<lambda>p. prefix p col) [''nombre_h_'', ''categoria_h_'', ''subcategoria_h_'']
         then set_column df_pred col (\<lambda>r. Num 0)
         else set_column df_pred col (\<lambda>r. Num 0))
      else df_pred)"

text \<open>
  \<open>df[cols]\<close> with a list of labels: a new frame with these columns in this order;
  a label that is not a column raises \<open>KeyError\<close>.
\<close>

definition getitem_cols :: "frame \<Rightarrow> string list \<Rightarrow> error + frame" where
  "getitem_cols df cs =
     (case filter (\<lambda>c. c \<notin> set (columns df)) cs of
        [] \<Rightarrow> Inr \<lparr>columns = cs, rows = map (\<lambda>r. r |` set cs) (rows df)\<rparr>
      | c # _ \<Rightarrow> Inl (KeyError c))"

definition prepare_prediction_data :: "frame \<Rightarrow> string list \<Rightarrow> error + frame" where
  "prepare_prediction_data df feature_cols =
     (let df_pred = df;
          df_pred = foldl fill_missing df_pred feature_cols
      in getitem_cols df_pred feature_cols)"

section \<open>Scenario Transformer\<close>

definition precio_base :: string where "precio_base = ''precio_base''"
definition precio_venta :: string where "precio_venta = ''precio_venta''"
definition precio_competencia :: string where "precio_competencia = ''precio_competencia''"
definition descuento_porcentaje :: string where "descuento_porcentaje = ''descuento_porcentaje''"
definition ratio_precio :: string where "ratio_precio = ''ratio_precio''"

text \<open>\<open>apply_discount_to_dataframe(df, discount_pct)\<close>, on the value of the copy.\<close>

definition apply_discount_to_dataframe :: "frame \<Rightarrow> real \<Rightarrow> frame" where
  "apply_discount_to_dataframe df discount_pct =
     (if precio_base \<in> set (columns df) then
        (let df1 = set_column df precio_venta
                     (\<lambda>r. cell_scale (cell_of r precio_base) (1 - discount_pct / 100));
             df2 = (if descuento_porcentaje \<in> set (columns df1)
                    then set_column df1 descuento_porcentaje (\<lambda>r. Num discount_pct)
                    else df1);
             df3 = (if precio_competencia \<in> set (columns df2)
                    then set_column df2 ratio_precio
                           (\<lambda>r. cell_div (cell_of r precio_venta) (cell_of r precio_competencia))
                    else df2)
         in df3)
      else df)"

text \<open>The body of the loop over \<open>comp_cols\<close> in \<open>apply_competition_scenario\<close>.\<close>

definition scale_if_present :: "real \<Rightarrow> frame \<Rightarrow> string \<Rightarrow> frame" where
  "scale_if_present adjustment_factor df col =
     (if col \<in> set (columns df)
      then set_column df col (\<lambda>r. cell_scale (cell_of r col) adjustment_factor)
      else df)"

definition apply_competition_scenario :: "frame \<Rightarrow> real \<Rightarrow> frame" where
  "apply_competition_scenario df scenario_adjustment =
     (if scenario_adjustment = 0 then df
      else
        (let adjustment_factor = 1 + scenario_adjustment / 100;
             df1 = (if precio_competencia \<in> set (columns df) then
                      (let d1 = set_column df precio_competencia
                                  (\<lambda>r. cell_scale (cell_of r precio_competencia) adjustment_factor)
                       in if precio_venta \<in> set (columns d1)
                          then set_column d1 ratio_precio
                                 (\<lambda>r. cell_div (cell_of r precio_venta) (cell_of r precio_competencia))
                          else d1)
                    else df)
         in foldl (scale_if_present adjustment_factor) df1
              [''Amazon'', ''Decathlon'', ''Deporvillage'']))"

section \<open>Recursive Forecaster: \<open>simulate_recursive_predictions\<close>\<close>

text \<open>
  The trained model is a parameter: \<open>model.predict(X)[0]\<close> on the feature frame,
  \<open>None\<close> when anything in the \<open>try\<close> block raises. It has no state.
\<close>

type_synonym predictor = "frame \<Rightarrow> real option"

definition fecha :: string where "fecha = ''fecha''"
definition unidades_vendidas :: string where "unidades_vendidas = ''unidades_vendidas''"
definition predicciones :: string where "predicciones = ''predicciones''"

fun num_of :: "cell \<Rightarrow> real" where
  "num_of (Num x) = x"
| "num_of NaN = 0"

text \<open>
  \<open>df.sort_values(by).reset_index(drop=True)\<close>: ascending, missing keys last. The
  model sorts stably; pandas' default sort leaves the order of rows with equal keys
  open, and the day series has one row per date.
\<close>

definition sort_values :: "frame \<Rightarrow> string \<Rightarrow> error + frame" where
  "sort_values df by =
     (if by \<notin> set (columns df) then Inl (KeyError by)
      else Inr (df\<lparr>rows :=
              sort_key (\<lambda>r. num_of (cell_of r by)) (filter (\<lambda>r. notna (cell_of r by)) (rows df))
              @ filter (\<lambda>r. \<not> notna (cell_of r by)) (rows df)\<rparr>))"

text \<open>\<open>df.iloc[[i]]\<close>: the frame of the one row at position \<open>i\<close>.\<close>

definition iloc_rows :: "frame \<Rightarrow> nat \<Rightarrow> error + frame" where
  "iloc_rows df i =
     (if i < length (rows df) then Inr (df\<lparr>rows := [rows df ! i]\<rparr>) else Inl IndexError)"

text \<open>\<open>df.loc[i]\<close>: the row with index label \<open>i\<close>, as a Series.\<close>

definition loc_row :: "frame \<Rightarrow> nat \<Rightarrow> error + row" where
  "loc_row df i =
     (if i < length (rows df) then Inr (rows df ! i) else Inl (KeyError (str_nat i)))"

text \<open>
  \<open>df.loc[i] = series\<close>: the Series is aligned to the frame's columns (a label of
  the Series that is no column is dropped, a column the Series lacks becomes
  missing). A label \<open>i\<close> that is not in the index would add a row; the loop below
  never does that.
\<close>

definition align_row :: "string list \<Rightarrow> row \<Rightarrow> row" where
  "align_row cs r = (\<lambda>c. if c \<in> set cs then Some (cell_of r c) else None)"

definition set_loc :: "frame \<Rightarrow> nat \<Rightarrow> row \<Rightarrow> frame" where
  "set_loc df i r =
     (if i < length (rows df) then df\<lparr>rows := (rows df)[i := align_row (columns df) r]\<rparr>
      else df\<lparr>rows := rows df @ [align_row (columns df) r]\<rparr>)"

text \<open>\<open>df[c].mean()\<close>: the mean of the cells that are not missing.\<close>

definition column_mean :: "frame \<Rightarrow> string \<Rightarrow> real" where
  "column_mean df c = mean (map num_of (filter notna (map (\<lambda>r. cell_of r c) (rows df))))"

text \<open>The \<open>except\<close> branch: the value used when the predictor raised.\<close>

definition fallback_pred :: "frame \<Rightarrow> nat \<Rightarrow> error + real" where
  "fallback_pred df_sim idx =
     (if unidades_vendidas \<in> set (columns df_sim)
         \<and> list_ex (\<lambda>r. notna (cell_of r unidades_vendidas)) (rows df_sim)
      then (case loc_row df_sim idx of
              Inl e \<Rightarrow> Inl e
            | Inr r \<Rightarrow>
                Inr (if notna (cell_of r unidades_vendidas)
                     then num_of (cell_of r unidades_vendidas)
                     else column_mean df_sim unidades_vendidas))
      else Inr 0)"

text \<open>
  The state of the loop: the frame being simulated, the predictions so far, the lag
  history, and the days for which \<open>st.warning\<close> reported a prediction error.
\<close>

record sim_state =
  df_sim :: frame
  predictions :: "real list"
  lag_history :: "real list"
  warnings :: "nat list"

text \<open>
  \<open>try: pred = max(0, model.predict(X)[0])  except: st.warning(...); fallback\<close>, on the
  feature frame, the frame being simulated and the warnings shown so far.
\<close>

definition predict_day ::
  "predictor \<Rightarrow> frame \<Rightarrow> frame \<Rightarrow> nat list \<Rightarrow> nat \<Rightarrow> error + real \<times> nat list" where
  "predict_day model X df shown idx =
     (case model X of
        Some y \<Rightarrow> Inr (max 0 y, shown)
      | None \<Rightarrow>
          (case fallback_pred df idx of
             Inl e \<Rightarrow> Inl e
           | Inr pred \<Rightarrow> Inr (pred, shown @ [idx + 1])))"

text \<open>
  One pass of the loop body for day \<open>idx\<close>. The test
  \<open>if 'precio_venta' in X.columns and idx == 0: pass\<close> does nothing and is left out.
\<close>

definition sim_step :: "predictor \<Rightarrow> string list \<Rightarrow> sim_state \<Rightarrow> nat \<Rightarrow> error + sim_state" where
  "sim_step model feature_cols s idx =
     (case iloc_rows (df_sim s) idx of
        Inl e \<Rightarrow> Inl e
      | Inr df_row \<Rightarrow>
     (case prepare_prediction_data df_row feature_cols of
        Inl e \<Rightarrow> Inl e
      | Inr X \<Rightarrow>
     (case predict_day model X (df_sim s) (warnings s) idx of
        Inl e \<Rightarrow> Inl e
      | Inr (pred, ws) \<Rightarrow>
          (let s1 = s\<lparr>predictions := predictions s @ [pred], warnings := ws\<rparr>
           in if int idx < int (length (rows (df_sim s))) - 1 then
                (case loc_row (df_sim s) (idx + 1) of
                   Inl e \<Rightarrow> Inl e
                 | Inr next_row \<Rightarrow>
                     (let (r, h) = update_lags next_row pred (lag_history s)
                      in Inr (s1\<lparr>df_sim := set_loc (df_sim s) (idx + 1) r, lag_history := h\<rparr>)))
              else Inr s1))))"

text \<open>The loop over the days, stopping at the first exception.\<close>

fun sim_loop :: "predictor \<Rightarrow> string list \<Rightarrow> nat list \<Rightarrow> sim_state \<Rightarrow> error + sim_state" where
  "sim_loop model feature_cols [] s = Inr s"
| "sim_loop model feature_cols (idx # days) s =
     (case sim_step model feature_cols s idx of
        Inl e \<Rightarrow> Inl e
      | Inr s' \<Rightarrow> sim_loop model feature_cols days s')"

definition sim_init :: "frame \<Rightarrow> sim_state" where
  "sim_init df = \<lparr>df_sim = df, predictions = [], lag_history = [], warnings = []\<rparr>"

text \<open>
  \<open>simulate_recursive_predictions\<close>: the days are \<open>range(len(df_sim))\<close>, fixed before
  the loop starts. The result is the warnings shown and the frame returned. The
  parameters \<open>discount_pct\<close> and \<open>scenario_adjustment\<close> are not used by the body.
\<close>

definition simulate_recursive_predictions ::
  "frame \<Rightarrow> predictor \<Rightarrow> string list \<Rightarrow> real \<Rightarrow> real \<Rightarrow> error + nat list \<times> frame" where
  "simulate_recursive_predictions df_product model feature_cols discount_pct scenario_adjustment =
     (case sort_values df_product fecha of
        Inl e \<Rightarrow> Inl e
      | Inr df0 \<Rightarrow>
          (case sim_loop model feature_cols [0..<length (rows df0)] (sim_init df0) of
             Inl e \<Rightarrow> Inl e
           | Inr s \<Rightarrow>
               Inr (warnings s,
                    set_column_list (df_sim s) predicciones (map Num (predictions s)))))"

text \<open>
  The feature frame \<open>X\<close> that the loop hands to the predictor on day \<open>k\<close> of the run on
  the sorted frame \<open>df0\<close>, and whether the predictor raises on it.
\<close>

definition features_at :: "predictor \<Rightarrow> string list \<Rightarrow> frame \<Rightarrow> nat \<Rightarrow> error + frame" where
  "features_at model feature_cols df0 k =
     (case sim_loop model feature_cols [0..<k] (sim_init df0) of
        Inl e \<Rightarrow> Inl e
      | Inr s \<Rightarrow>
          (case iloc_rows (df_sim s) k of
             Inl e \<Rightarrow> Inl e
           | Inr df_row \<Rightarrow> prepare_prediction_data df_row feature_cols))"

definition raises_on :: "predictor \<Rightarrow> string list \<Rightarrow> frame \<Rightarrow> nat \<Rightarrow> bool" where
  "raises_on model feature_cols df0 k =
     (case features_at model feature_cols df0 k of
        Inl e \<Rightarrow> False
      | Inr X \<Rightarrow> model X = None)"

text \<open>The content of a frame, row by row in column order (\<open>df.values\<close>).\<close>

definition table :: "frame \<Rightarrow> cell list list" where
  "table df = map (\<lambda>r. map (cell_of r) (columns df)) (rows df)"

section \<open>The simulate button\<close>

text \<open>
  The branch \<open>if simulate_button:\<close>. The selection \<open>df['nombre'] == selected_product\<close>
  is a predicate on rows, since text cells are outside the model. \<open>st.error\<close> followed
  by \<open>st.stop()\<close> ends the run with a report; it is not an exception of the forecast.
\<close>

datatype 'a outcome = NoDataFound | Raised error | Finished 'a

definition boolean_mask :: "(row \<Rightarrow> bool) \<Rightarrow> frame \<Rightarrow> frame" where
  "boolean_mask selected df = df\<lparr>rows := filter selected (rows df)\<rparr>"

definition simulate_button ::
  "(row \<Rightarrow> bool) \<Rightarrow> frame \<Rightarrow> real \<Rightarrow> real \<Rightarrow> predictor \<Rightarrow> string list
     \<Rightarrow> (nat list \<times> frame) outcome" where
  "simulate_button selected df_inference discount_slider scenario_adjustment model feature_cols =
     (let df_product = boolean_mask selected df_inference
      in if length (rows df_product) = 0 then NoDataFound
         else
           (let df_product = apply_discount_to_dataframe df_product discount_slider;
                df_product = apply_competition_scenario df_product scenario_adjustment
            in case simulate_recursive_predictions df_product model feature_cols
                      discount_slider scenario_adjustment of
                 Inl e \<Rightarrow> Raised e
               | Inr res \<Rightarrow> Finished res))"

section \<open>The same functions on a store of frames\<close>

text \<open>
  A pandas frame is an object that assignments change in place, and two names can
  refer to one frame. To state what a function does to the frames its caller holds,
  the functions that copy and assign are modelled a second time on a store: the list
  of all frames allocated so far, a reference being a position in it. \<open>.copy()\<close> and
  every operation that returns a new frame (\<open>df[cols]\<close>, \<open>iloc\<close>, \<open>sort_values\<close>,
  \<open>reset_index\<close>) allocate; \<open>df[c] = ...\<close> and \<open>df.loc[i] = ...\<close> change the frame at
  the reference. A Series and a Python list are values here: the program copies
  them before it changes them. Each function returns the reference of its result
  and the new store. The lemmas \<open>apply_discount_st_eq\<close>, \<open>apply_competition_st_eq\<close>,
  \<open>prepare_st_eq\<close> and \<open>simulate_st_eq\<close> relate them to the functions on values above.
\<close>

type_synonym store = "frame list"

text \<open>
  A reference \<open>a\<close> is valid in \<open>h\<close> when \<open>a < length h\<close>; a Python name always holds a
  valid one, and the statements below are about valid references.
\<close>

definition st_new :: "frame \<Rightarrow> store \<Rightarrow> nat \<times> store" where
  "st_new f h = (length h, h @ [f])"

definition st_copy :: "nat \<Rightarrow> store \<Rightarrow> nat \<times> store" where
  "st_copy a h = st_new (h ! a) h"

definition st_set_column :: "nat \<Rightarrow> string \<Rightarrow> (row \<Rightarrow> cell) \<Rightarrow> store \<Rightarrow> store" where
  "st_set_column a c g h = h[a := set_column (h ! a) c g]"

definition st_set_column_list :: "nat \<Rightarrow> string \<Rightarrow> cell list \<Rightarrow> store \<Rightarrow> store" where
  "st_set_column_list a c vs h = h[a := set_column_list (h ! a) c vs]"

definition st_set_loc :: "nat \<Rightarrow> nat \<Rightarrow> row \<Rightarrow> store \<Rightarrow> store" where
  "st_set_loc a i r h = h[a := set_loc (h ! a) i r]"

definition st_fill_missing :: "nat \<Rightarrow> store \<Rightarrow> string \<Rightarrow> store" where
  "st_fill_missing df_pred h col =
     (if col \<notin> set (columns (h ! df_pred)) then
        (if list_ex (\<lambda>p. prefix p col) [''nombre_h_'', ''categoria_h_'', ''subcategoria_h_'']
         then st_set_column df_pred col (\<lambda>r. Num 0) h
         else st_set_column df_pred col (\<lambda>r. Num 0) h)
      else h)"

definition prepare_prediction_data_st :: "nat \<Rightarrow> string list \<Rightarrow> store \<Rightarrow> error + nat \<times> store" where
  "prepare_prediction_data_st df feature_cols h =
     (let (df_pred, h1) = st_copy df h;
          h2 = foldl (st_fill_missing df_pred) h1 feature_cols
      in case getitem_cols (h2 ! df_pred) feature_cols of
           Inl e \<Rightarrow> Inl e
         | Inr selected \<Rightarrow>
             (let (t, h3) = st_new selected h2
              in Inr (st_copy t h3)))"

text \<open>\<open>df = df.copy()\<close>, then the assignments to the copy.\<close>

definition apply_discount_to_dataframe_st :: "nat \<Rightarrow> real \<Rightarrow> store \<Rightarrow> nat \<times> store" where
  "apply_discount_to_dataframe_st df0 discount_pct h0 =
     (let (df, h) = st_copy df0 h0
      in if precio_base \<in> set (columns (h ! df)) then
           (let h1 = st_set_column df precio_venta
                       (\<lambda>r. cell_scale (cell_of r precio_base) (1 - discount_pct / 100)) h;
                h2 = (if descuento_porcentaje \<in> set (columns (h1 ! df))
                      then st_set_column df descuento_porcentaje (\<lambda>r. Num discount_pct) h1
                      else h1);
                h3 = (if precio_competencia \<in> set (columns (h2 ! df))
                      then st_set_column df ratio_precio
                             (\<lambda>r. cell_div (cell_of r precio_venta) (cell_of r precio_competencia)) h2
                      else h2)
            in (df, h3))
         else (df, h))"

definition st_scale_if_present :: "real \<Rightarrow> nat \<Rightarrow> store \<Rightarrow> string \<Rightarrow> store" where
  "st_scale_if_present adjustment_factor df h col =
     (if col \<in> set (columns (h ! df))
      then st_set_column df col (\<lambda>r. cell_scale (cell_of r col) adjustment_factor) h
      else h)"

definition apply_competition_scenario_st :: "nat \<Rightarrow> real \<Rightarrow> store \<Rightarrow> nat \<times> store" where
  "apply_competition_scenario_st df0 scenario_adjustment h0 =
     (let (df, h) = st_copy df0 h0
      in if scenario_adjustment = 0 then (df, h)
         else
           (let adjustment_factor = 1 + scenario_adjustment / 100;
                h1 = (if precio_competencia \<in> set (columns (h ! df)) then
                        (let h' = st_set_column df precio_competencia
                                    (\<lambda>r. cell_scale (cell_of r precio_competencia) adjustment_factor) h
                         in if precio_venta \<in> set (columns (h' ! df))
                            then st_set_column df ratio_precio
                                   (\<lambda>r. cell_div (cell_of r precio_venta) (cell_of r precio_competencia)) h'
                            else h')
                      else h)
            in (df, foldl (st_scale_if_present adjustment_factor df) h1
                      [''Amazon'', ''Decathlon'', ''Deporvillage''])))"

text \<open>
  The state of the loop on the store; \<open>sim_ref\<close> below is the reference of \<open>df_sim\<close>.
\<close>

record sim_state_st =
  heap :: store
  predictions_st :: "real list"
  lag_history_st :: "real list"
  warnings_st :: "nat list"

definition sim_step_st ::
  "predictor \<Rightarrow> string list \<Rightarrow> nat \<Rightarrow> sim_state_st \<Rightarrow> nat \<Rightarrow> error + sim_state_st" where
  "sim_step_st model feature_cols sim_ref s idx =
     (case iloc_rows (heap s ! sim_ref) idx of
        Inl e \<Rightarrow> Inl e
      | Inr one_row \<Rightarrow>
     (let (t, h1) = st_new one_row (heap s);
          (df_row, h2) = st_copy t h1
      in case prepare_prediction_data_st df_row feature_cols h2 of
        Inl e \<Rightarrow> Inl e
      | Inr (X, h3) \<Rightarrow>
     (case predict_day model (h3 ! X) (h3 ! sim_ref) (warnings_st s) idx of
        Inl e \<Rightarrow> Inl e
      | Inr (pred, ws) \<Rightarrow>
          (let s1 = s\<lparr>heap := h3, predictions_st := predictions_st s @ [pred], warnings_st := ws\<rparr>
           in if int idx < int (length (rows (h3 ! sim_ref))) - 1 then
                (case loc_row (h3 ! sim_ref) (idx + 1) of
                   Inl e \<Rightarrow> Inl e
                 | Inr next_row \<Rightarrow>
                     (let (r, hist) = update_lags next_row pred (lag_history_st s)
                      in Inr (s1\<lparr>heap := st_set_loc sim_ref (idx + 1) r h3,
                                 lag_history_st := hist\<rparr>)))
              else Inr s1))))"

fun sim_loop_st ::
  "predictor \<Rightarrow> string list \<Rightarrow> nat \<Rightarrow> nat list \<Rightarrow> sim_state_st \<Rightarrow> error + sim_state_st" where
  "sim_loop_st model feature_cols sim_ref [] s = Inr s"
| "sim_loop_st model feature_cols sim_ref (idx # days) s =
     (case sim_step_st model feature_cols sim_ref s idx of
        Inl e \<Rightarrow> Inl e
      | Inr s' \<Rightarrow> sim_loop_st model feature_cols sim_ref days s')"

text \<open>
  \<open>df_product.copy().sort_values('fecha').reset_index(drop=True)\<close>: three new frames;
  the loop and the last assignment change the third one only.
\<close>

definition simulate_recursive_predictions_st ::
  "nat \<Rightarrow> predictor \<Rightarrow> string list \<Rightarrow> real \<Rightarrow> real \<Rightarrow> store
     \<Rightarrow> error + nat list \<times> nat \<times> store" where
  "simulate_recursive_predictions_st df_product model feature_cols discount_pct scenario_adjustment h =
     (let (c, h1) = st_copy df_product h
      in case sort_values (h1 ! c) fecha of
           Inl e \<Rightarrow> Inl e
         | Inr sorted_frame \<Rightarrow>
             (let (t, h2) = st_new sorted_frame h1;
                  (sim_ref, h3) = st_new (h2 ! t) h2
              in case sim_loop_st model feature_cols sim_ref [0..<length (rows (h3 ! sim_ref))]
                        \<lparr>heap = h3, predictions_st = [], lag_history_st = [], warnings_st = []\<rparr> of
                   Inl e \<Rightarrow> Inl e
                 | Inr s \<Rightarrow>
                     Inr (warnings_st s, sim_ref,
                          st_set_column_list sim_ref predicciones (map Num (predictions_st s))
                            (heap s))))"

text \<open>
  One pass of the scenario comparison:
  \<^verbatim>\<open>df_temp = apply_competition_scenario(apply_discount_to_dataframe(df_product.copy(), discount_slider), adjustment)\<close>
  followed by \<open>simulate_recursive_predictions(df_temp, ...)\<close>, on values and on the store.
\<close>

definition run_scenario ::
  "frame \<Rightarrow> real \<Rightarrow> real \<Rightarrow> predictor \<Rightarrow> string list \<Rightarrow> error + nat list \<times> frame" where
  "run_scenario df_product discount_slider adjustment model feature_cols =
     simulate_recursive_predictions
       (apply_competition_scenario (apply_discount_to_dataframe df_product discount_slider) adjustment)
       model feature_cols discount_slider adjustment"

definition run_scenario_st ::
  "nat \<Rightarrow> real \<Rightarrow> real \<Rightarrow> predictor \<Rightarrow> string list \<Rightarrow> store
     \<Rightarrow> error + nat list \<times> nat \<times> store" where
  "run_scenario_st df_product discount_slider adjustment model feature_cols h =
     (let (c, h1) = st_copy df_product h;
          (d, h2) = apply_discount_to_dataframe_st c discount_slider h1;
          (df_temp, h3) = apply_competition_scenario_st d adjustment h2
      in simulate_recursive_predictions_st df_temp model feature_cols discount_slider adjustment h3)"

text \<open>What a run returns, read from the store: the warnings and the frame returned.\<close>

definition result_of :: "error + nat list \<times> nat \<times> store \<Rightarrow> error + nat list \<times> frame" where
  "result_of res = (case res of Inl e \<Rightarrow> Inl e | Inr (ws, b, h) \<Rightarrow> Inr (ws, h ! b))"

section \<open>The loop without its error branches\<close>

text \<open>
  The definitions of this section are not in the source: they name what the loop body
  computes once its reads are known to be in range, and are proved equal to the
  functions above (\<open>prepare_prediction_data_Inr\<close>, \<open>sim_step_val\<close>,
  \<open>sim_loop_states\<close>). \<open>states model fc df0 k\<close> is the state of the run on the sorted
  frame \<open>df0\<close> when the days before \<open>k\<close> have been processed, that is, at the moment
  day \<open>k\<close> is predicted.
\<close>

definition resolve_row :: "string list \<Rightarrow> string list \<Rightarrow> row \<Rightarrow> row" where
  "resolve_row cols fc r =
     (\<lambda>c. if c \<in> set fc then (if c \<in> set cols then r c else Some (Num 0)) else None)"

definition fallback_value :: "frame \<Rightarrow> nat \<Rightarrow> real" where
  "fallback_value df idx =
     (if unidades_vendidas \<in> set (columns df)
         \<and> list_ex (\<lambda>r. notna (cell_of r unidades_vendidas)) (rows df)
      then (if notna (cell_of (rows df ! idx) unidades_vendidas)
            then num_of (cell_of (rows df ! idx) unidades_vendidas)
            else column_mean df unidades_vendidas)
      else 0)"

definition day_features :: "string list \<Rightarrow> frame \<Rightarrow> nat \<Rightarrow> frame" where
  "day_features fc df idx =
     \<lparr>columns = fc, rows = [resolve_row (columns df) fc (rows df ! idx)]\<rparr>"

definition day_pred :: "predictor \<Rightarrow> string list \<Rightarrow> frame \<Rightarrow> nat \<Rightarrow> real" where
  "day_pred model fc df idx =
     (case model (day_features fc df idx) of
        Some y \<Rightarrow> max 0 y
      | None \<Rightarrow> fallback_value df idx)"

definition day_warnings :: "predictor \<Rightarrow> string list \<Rightarrow> frame \<Rightarrow> nat \<Rightarrow> nat list" where
  "day_warnings model fc df idx =
     (case model (day_features fc df idx) of Some y \<Rightarrow> [] | None \<Rightarrow> [idx + 1])"

definition step_val :: "predictor \<Rightarrow> string list \<Rightarrow> sim_state \<Rightarrow> nat \<Rightarrow> sim_state" where
  "step_val model fc s idx =
     (let df = df_sim s;
          pred = day_pred model fc df idx;
          s1 = s\<lparr>predictions := predictions s @ [pred],
                 warnings := warnings s @ day_warnings model fc df idx\<rparr>
      in if Suc idx < length (rows df)
         then s1\<lparr>df_sim := df\<lparr>rows := (rows df)[Suc idx :=
                      align_row (columns df) (fst (update_lags (rows df ! Suc idx) pred (lag_history s)))]\<rparr>,
                 lag_history := snd (update_lags (rows df ! Suc idx) pred (lag_history s))\<rparr>
         else s1)"

fun states :: "predictor \<Rightarrow> string list \<Rightarrow> frame \<Rightarrow> nat \<Rightarrow> sim_state" where
  "states model fc df0 0 = sim_init df0"
| "states model fc df0 (Suc k) = step_val model fc (states model fc df0 k) k"

text \<open>The state of the loop on values which a state on the store stands for.\<close>

definition abs_state :: "nat \<Rightarrow> sim_state_st \<Rightarrow> sim_state" where
  "abs_state r s =
     \<lparr>df_sim = heap s ! r, predictions = predictions_st s,
      lag_history = lag_history_st s, warnings = warnings_st s\<rparr>"

section \<open>Example inputs\<close>

text \<open>
  A series of nine days with a rolling-average column, and a predictor that answers
  the date of the row it is given (the feature set then holds the date column).
\<close>

definition nine_days :: frame where
  "nine_days =
     \<lparr>columns = [fecha, ma7_col],
      rows = [[fecha \<mapsto> Num 1, ma7_col \<mapsto> NaN], [fecha \<mapsto> Num 2, ma7_col \<mapsto> NaN],
              [fecha \<mapsto> Num 3, ma7_col \<mapsto> NaN], [fecha \<mapsto> Num 4, ma7_col \<mapsto> NaN],
              [fecha \<mapsto> Num 5, ma7_col \<mapsto> NaN], [fecha \<mapsto> Num 6, ma7_col \<mapsto> NaN],
              [fecha \<mapsto> Num 7, ma7_col \<mapsto> NaN], [fecha \<mapsto> Num 8, ma7_col \<mapsto> NaN],
              [fecha \<mapsto> Num 9, ma7_col \<mapsto> NaN]]\<rparr>"

definition date_model :: predictor where
  "date_model X = (case rows X of [] \<Rightarrow> None | r # _ \<Rightarrow> Some (num_of (cell_of r fecha)))"

text \<open>One day of a product with a base price and a competitor price.\<close>

definition one_day :: frame where
  "one_day = \<lparr>columns = [fecha, precio_base, precio_competencia],
              rows = [[fecha \<mapsto> Num 1, precio_base \<mapsto> Num 100, precio_competencia \<mapsto> Num 50]]\<rparr>"

section \<open>Lemmas\<close>

lemma lag_col_simps:
  "lag_col 1 = ''unidades_vendidas_lag1''"
  "lag_col 2 = ''unidades_vendidas_lag2''"
  "lag_col 3 = ''unidades_vendidas_lag3''"
  "lag_col 4 = ''unidades_vendidas_lag4''"
  "lag_col 5 = ''unidades_vendidas_lag5''"
  "lag_col 6 = ''unidades_vendidas_lag6''"
  "lag_col 7 = ''unidades_vendidas_lag7''"
  by (simp_all add: lag_col_def str_nat.simps digit_char_def)

lemma lag_range: "d \<in> {2..7} \<Longrightarrow> d = 2 \<or> d = 3 \<or> d = 4 \<or> d = 5 \<or> d = 6 \<or> d = (7::nat)"
  by (simp, arith)

lemma digit_char_inj: "a < 10 \<Longrightarrow> b < 10 \<Longrightarrow> digit_char a = digit_char b \<longleftrightarrow> a = b"
proof -
  have d: "distinct ''0123456789''" by simp
  show "a < 10 \<Longrightarrow> b < 10 \<Longrightarrow> digit_char a = digit_char b \<longleftrightarrow> a = b"
    unfolding digit_char_def using d by (simp add: nth_eq_iff_index_eq del: distinct.simps)
qed

lemma lag_col_eq_iff: "a < 10 \<Longrightarrow> b < 10 \<Longrightarrow> lag_col a = lag_col b \<longleftrightarrow> a = b"
  by (simp add: lag_col_def str_nat.simps digit_char_inj)

lemma lag_col_ne_ma7: "a < 10 \<Longrightarrow> lag_col a \<noteq> ma7_col"
  by (simp add: lag_col_def ma7_col_def str_nat.simps)

lemma shift_lag_apply:
  "shift_lag r d c =
     (if c = lag_col d \<and> r (lag_col (d - 1)) \<noteq> None then r (lag_col (d - 1)) else r c)"
  by (auto simp add: shift_lag_def split: option.splits)

lemma shift_all:
  "shift_lags r c =
    (if c = lag_col 7 \<and> r (lag_col 6) \<noteq> None then r (lag_col 6)
     else if c = lag_col 6 \<and> r (lag_col 5) \<noteq> None then r (lag_col 5)
     else if c = lag_col 5 \<and> r (lag_col 4) \<noteq> None then r (lag_col 4)
     else if c = lag_col 4 \<and> r (lag_col 3) \<noteq> None then r (lag_col 3)
     else if c = lag_col 3 \<and> r (lag_col 2) \<noteq> None then r (lag_col 2)
     else if c = lag_col 2 \<and> r (lag_col 1) \<noteq> None then r (lag_col 1)
     else r c)"
  by (auto simp add: shift_lags_def shift_lag_apply lag_col_eq_iff)

lemma fill_missing_eq:
  "fill_missing df c = (if c \<in> set (columns df) then df else set_column df c (\<lambda>r. Num 0))"
  by (simp add: fill_missing_def)

lemma foldl_fill_columns:
  "set (columns (foldl fill_missing df fc)) = set (columns df) \<union> set fc"
proof (induction fc arbitrary: df)
  case Nil
  then show ?case by simp
next
  case (Cons a fc)
  have "set (columns (fill_missing df a)) = insert a (set (columns df))"
    by (auto simp add: fill_missing_def set_column_def add_label_def)
  then show ?case by (simp add: Cons.IH)
qed

lemma foldl_fill_rows:
  "rows (foldl fill_missing df fc) =
     map (\<lambda>r c. if c \<in> set fc \<and> c \<notin> set (columns df) then Some (Num 0) else r c) (rows df)"
proof (induction fc arbitrary: df)
  case Nil
  then show ?case by (simp add: map_idI)
next
  case (Cons a fc)
  show ?case
  proof (cases "a \<in> set (columns df)")
    case True
    then have "\<And>c. (c \<in> set (a # fc) \<and> c \<notin> set (columns df)) = (c \<in> set fc \<and> c \<notin> set (columns df))"
      by auto
    moreover from True have "fill_missing df a = df" by (simp add: fill_missing_def)
    ultimately show ?thesis by (simp add: Cons.IH)
  next
    case False
    then have step: "fill_missing df a = set_column df a (\<lambda>r. Num 0)"
      by (simp add: fill_missing_def)
    show ?thesis unfolding foldl_Cons step Cons.IH
      using False by (auto simp add: set_column_def add_label_def intro: ext)
  qed
qed

lemma prepare_prediction_data_Inr:
  "prepare_prediction_data df fc =
     Inr \<lparr>columns = fc, rows = map (resolve_row (columns df) fc) (rows df)\<rparr>"
proof -
  have "filter (\<lambda>c. c \<notin> set (columns (foldl fill_missing df fc))) fc = []"
    by (simp add: foldl_fill_columns)
  then show ?thesis
    by (auto simp add: prepare_prediction_data_def getitem_cols_def foldl_fill_rows
        resolve_row_def restrict_map_def intro: ext)
qed

lemma fallback_pred_Inr:
  "idx < length (rows df) \<Longrightarrow> fallback_pred df idx = Inr (fallback_value df idx)"
  by (simp add: fallback_pred_def fallback_value_def loc_row_def)

lemma sim_step_val:
  assumes "idx < length (rows (df_sim s))"
  shows "sim_step model fc s idx = Inr (step_val model fc s idx)"
proof -
  have il: "iloc_rows (df_sim s) idx = Inr ((df_sim s)\<lparr>rows := [rows (df_sim s) ! idx]\<rparr>)"
    using assms by (simp add: iloc_rows_def)
  have pr: "prepare_prediction_data ((df_sim s)\<lparr>rows := [rows (df_sim s) ! idx]\<rparr>) fc
              = Inr (day_features fc (df_sim s) idx)"
    by (simp add: prepare_prediction_data_Inr day_features_def)
  have pd: "predict_day model (day_features fc (df_sim s) idx) (df_sim s) (warnings s) idx
              = Inr (day_pred model fc (df_sim s) idx,
                     warnings s @ day_warnings model fc (df_sim s) idx)"
    using assms
    by (simp add: predict_day_def day_pred_def day_warnings_def fallback_pred_Inr
        split: option.splits)
  show ?thesis
  proof (cases "Suc idx < length (rows (df_sim s))")
    case True
    then have "int idx < int (length (rows (df_sim s))) - 1" by simp
    with True show ?thesis
      by (simp add: sim_step_def il pr pd step_val_def Let_def loc_row_def set_loc_def
          split: prod.splits)
  next
    case False
    then have "\<not> int idx < int (length (rows (df_sim s))) - 1" by simp
    with False show ?thesis
      by (simp add: sim_step_def il pr pd step_val_def Let_def)
  qed
qed

lemma step_val_shape:
  "columns (df_sim (step_val model fc s idx)) = columns (df_sim s)"
  "length (rows (df_sim (step_val model fc s idx))) = length (rows (df_sim s))"
  "predictions (step_val model fc s idx) = predictions s @ [day_pred model fc (df_sim s) idx]"
  "warnings (step_val model fc s idx) = warnings s @ day_warnings model fc (df_sim s) idx"
  by (simp_all add: step_val_def Let_def)

lemma states_shape:
  "columns (df_sim (states model fc df0 k)) = columns df0"
  "length (rows (df_sim (states model fc df0 k))) = length (rows df0)"
  "length (predictions (states model fc df0 k)) = k"
  by (induction k) (simp_all add: sim_init_def step_val_shape)

lemma sim_loop_append:
  "sim_loop model fc (xs @ ys) s =
     (case sim_loop model fc xs s of Inl e \<Rightarrow> Inl e | Inr s' \<Rightarrow> sim_loop model fc ys s')"
  by (induction xs arbitrary: s) (simp_all split: sum.splits)

lemma sim_loop_states:
  "k \<le> length (rows df0) \<Longrightarrow>
     sim_loop model fc [0..<k] (sim_init df0) = Inr (states model fc df0 k)"
proof (induction k)
  case 0
  then show ?case by simp
next
  case (Suc k)
  then have "k < length (rows (df_sim (states model fc df0 k)))"
    by (simp add: states_shape)
  then show ?case using Suc by (simp add: sim_loop_append sim_step_val)
qed

lemma states_Suc_rows:
  "rows (df_sim (states model fc df0 (Suc k))) =
     (let s = states model fc df0 k in
      if Suc k < length (rows df0)
      then (rows (df_sim s))[Suc k := align_row (columns df0)
              (fst (update_lags (rows (df_sim s) ! Suc k) (day_pred model fc (df_sim s) k) (lag_history s)))]
      else rows (df_sim s))"
  by (simp add: step_val_def Let_def states_shape)

lemma states_Suc_history:
  "lag_history (states model fc df0 (Suc k)) =
     (let s = states model fc df0 k in
      if Suc k < length (rows df0)
      then snd (update_lags (rows (df_sim s) ! Suc k) (day_pred model fc (df_sim s) k) (lag_history s))
      else lag_history s)"
  by (simp add: step_val_def Let_def states_shape)

lemma states_predictions_step:
  "predictions (states model fc df0 (Suc k)) =
     predictions (states model fc df0 k) @ [day_pred model fc (df_sim (states model fc df0 k)) k]"
  by (simp add: step_val_shape)

lemma states_warnings_step:
  "warnings (states model fc df0 (Suc k)) =
     warnings (states model fc df0 k) @ day_warnings model fc (df_sim (states model fc df0 k)) k"
  by (simp add: step_val_shape)

declare states.simps(2) [simp del]

lemma tl_window:
  assumes "length xs = k" "\<not> k < 7"
  shows "tl (drop (k - 7) xs @ [p]) = drop (Suc k - 7) (xs @ [p])"
proof -
  from assms have ne: "drop (k - 7) xs \<noteq> []" by simp
  from assms have s: "Suc k - 7 = Suc (k - 7)" by simp
  from assms have le: "Suc (k - 7) \<le> length xs" by simp
  have "tl (drop (k - 7) xs @ [p]) = tl (drop (k - 7) xs) @ [p]"
    using ne by simp
  also have "tl (drop (k - 7) xs) = drop (Suc (k - 7)) xs"
    by (simp add: drop_Suc drop_tl)
  finally have "tl (drop (k - 7) xs @ [p]) = drop (Suc (k - 7)) xs @ [p]" .
  also have "\<dots> = drop (Suc (k - 7)) (xs @ [p])" using le by simp
  finally show ?thesis unfolding s .
qed

lemma states_row_step:
  "j \<noteq> Suc k \<Longrightarrow>
     rows (df_sim (states model fc df0 (Suc k))) ! j = rows (df_sim (states model fc df0 k)) ! j"
  by (simp add: states_Suc_rows Let_def)

lemma states_untouched:
  "k < j \<Longrightarrow> rows (df_sim (states model fc df0 k)) ! j = rows df0 ! j"
proof (induction k)
  case 0
  then show ?case by (simp add: sim_init_def)
next
  case (Suc k)
  then show ?case using states_row_step [of j k model fc df0] by simp
qed

lemma states_frozen:
  "j \<le> k \<Longrightarrow> k \<le> k' \<Longrightarrow>
     rows (df_sim (states model fc df0 k')) ! j = rows (df_sim (states model fc df0 k)) ! j"
proof (induction k')
  case 0
  then show ?case by simp
next
  case (Suc k')
  show ?case
  proof (cases "k = Suc k'")
    case True
    then show ?thesis by simp
  next
    case False
    with Suc.prems have le: "k \<le> k'" and ne: "j \<noteq> Suc k'" by simp_all
    show ?thesis using Suc.IH [OF Suc.prems(1) le] states_row_step [OF ne, of model fc df0]
      by simp
  qed
qed

lemma states_predictions_take:
  "k \<le> k' \<Longrightarrow>
     predictions (states model fc df0 k) = take k (predictions (states model fc df0 k'))"
proof (induction k')
  case 0
  then show ?case by (simp add: sim_init_def)
next
  case (Suc k')
  show ?case
  proof (cases "k = Suc k'")
    case True
    then show ?thesis using states_shape(3) [of model fc df0 "Suc k'"] by simp
  next
    case False
    with Suc.prems have le: "k \<le> k'" by simp
    then show ?thesis
      using Suc.IH [OF le] states_shape(3) [of model fc df0 k']
      by (simp add: states_predictions_step)
  qed
qed

lemma states_prediction_nth:
  "k < k' \<Longrightarrow>
     predictions (states model fc df0 k') ! k = day_pred model fc (df_sim (states model fc df0 k)) k"
proof -
  assume "k < k'"
  then have "Suc k \<le> k'" by simp
  from states_predictions_take [OF this, of model fc df0]
  have "predictions (states model fc df0 (Suc k)) ! k
          = predictions (states model fc df0 k') ! k"
    by simp
  moreover have "(predictions (states model fc df0 k)
      @ [day_pred model fc (df_sim (states model fc df0 k)) k]) ! k
      = day_pred model fc (df_sim (states model fc df0 k)) k"
    using states_shape(3) [of model fc df0 k] by (simp add: nth_append)
  ultimately show ?thesis
    by (simp add: states_predictions_step)
qed

lemma snd_update_lags:
  "snd (update_lags r p h) = (if length h < 7 then h @ [p] else tl (h @ [p]))"
  by (simp add: update_lags_def Let_def)

lemma fst_update_lags:
  "fst (update_lags r p h) =
     (shift_lags r)(lag_col 1 \<mapsto> Num p, ma7_col \<mapsto> Num (mean (snd (update_lags r p h))))"
  by (simp add: update_lags_def Let_def)

lemma update_lags_lag:
  assumes "d \<in> {2..7}"
  shows "fst (update_lags r p h) (lag_col d) =
           (case r (lag_col (d - 1)) of None \<Rightarrow> r (lag_col d) | Some v \<Rightarrow> Some v)"
proof -
  from assms have "d = 2 \<or> d = 3 \<or> d = 4 \<or> d = 5 \<or> d = 6 \<or> d = 7" by (rule lag_range)
  then show ?thesis
    unfolding fst_update_lags
    by (elim disjE) (simp_all add: shift_all lag_col_eq_iff lag_col_ne_ma7 split: option.splits)
qed

lemma update_lags_lag1: "fst (update_lags r p h) (lag_col 1) = Some (Num p)"
  by (simp add: fst_update_lags lag_col_ne_ma7)

lemma update_lags_ma7:
  "fst (update_lags r p h) ma7_col = Some (Num (mean (snd (update_lags r p h))))"
  by (simp add: fst_update_lags)

lemma update_lags_other:
  assumes "c \<notin> lag_col ` {1..7} \<and> c \<noteq> ma7_col"
  shows "fst (update_lags r p h) c = r c"
proof -
  from assms have "c \<noteq> lag_col 1" "c \<noteq> lag_col 2" "c \<noteq> lag_col 3" "c \<noteq> lag_col 4"
    "c \<noteq> lag_col 5" "c \<noteq> lag_col 6" "c \<noteq> lag_col 7" "c \<noteq> ma7_col"
    by auto
  then show ?thesis by (simp add: fst_update_lags shift_all)
qed

lemma states_history:
  "k < length (rows df0) \<Longrightarrow>
     lag_history (states model fc df0 k) = drop (k - 7) (predictions (states model fc df0 k))"
proof (induction k)
  case 0
  then show ?case by (simp add: sim_init_def)
next
  case (Suc k)
  let ?s = "states model fc df0 k"
  let ?p = "day_pred model fc (df_sim ?s) k"
  from Suc have ih: "lag_history ?s = drop (k - 7) (predictions ?s)" by simp
  have len: "length (predictions ?s) = k" by (rule states_shape)
  from Suc.prems have lt: "Suc k < length (rows (df_sim ?s))" by (simp add: states_shape)
  from Suc.prems have "lag_history (states model fc df0 (Suc k)) =
      snd (update_lags (rows (df_sim ?s) ! Suc k) ?p (lag_history ?s))"
    by (simp add: states_Suc_history Let_def)
  also have "\<dots> = drop (Suc k - 7) (predictions ?s @ [?p])"
  proof (cases "k < 7")
    case True
    then show ?thesis by (simp add: snd_update_lags ih len)
  next
    case False
    then show ?thesis
      using tl_window [OF len False, of ?p] by (simp add: snd_update_lags ih len)
  qed
  finally show ?case by (simp add: states_predictions_step)
qed

lemma states_history_length:
  "k < length (rows df0) \<Longrightarrow> length (lag_history (states model fc df0 k)) = min k 7"
  using states_shape(3) [of model fc df0 k] by (simp add: states_history)

lemma states_written_row:
  assumes "Suc k < length (rows df0)"
  shows "rows (df_sim (states model fc df0 (Suc k))) ! Suc k =
           align_row (columns df0)
             (fst (update_lags (rows df0 ! Suc k)
                     (predictions (states model fc df0 (Suc k)) ! k)
                     (lag_history (states model fc df0 k))))"
proof -
  let ?s = "states model fc df0 k"
  have len: "length (predictions ?s) = k" by (rule states_shape)
  from assms have lt: "Suc k < length (rows (df_sim ?s))" by (simp add: states_shape)
  have un: "rows (df_sim ?s) ! Suc k = rows df0 ! Suc k"
    by (rule states_untouched) simp
  have pk: "predictions (states model fc df0 (Suc k)) ! k = day_pred model fc (df_sim ?s) k"
    by (rule states_prediction_nth) simp
  show ?thesis using assms
    by (simp add: states_Suc_rows Let_def un pk states_shape)
qed

lemmas col_defs = precio_base_def precio_venta_def precio_competencia_def
  descuento_porcentaje_def ratio_precio_def

lemma set_column_rows_nth:
  "i < length (rows df) \<Longrightarrow> rows (set_column df c g) ! i = (rows df ! i)(c \<mapsto> g (rows df ! i))"
  by (simp add: set_column_def)

lemma set_column_columns: "columns (set_column df c g) = add_label (columns df) c"
  by (simp add: set_column_def)

lemma set_column_length: "length (rows (set_column df c g)) = length (rows df)"
  by (simp add: set_column_def)

lemma set_add_label: "set (add_label cs c) = insert c (set cs)"
  by (auto simp add: add_label_def)

lemma sort_values_shape:
  assumes "sort_values df c = Inr df0"
  shows "columns df0 = columns df" "set (rows df0) = set (rows df)"
    "length (rows df0) = length (rows df)" "c \<in> set (columns df)"
proof -
  from assms have c: "c \<in> set (columns df)"
    by (auto simp add: sort_values_def split: if_splits)
  with assms have df0: "df0 = df\<lparr>rows :=
              sort_key (\<lambda>r. num_of (cell_of r c)) (filter (\<lambda>r. notna (cell_of r c)) (rows df))
              @ filter (\<lambda>r. \<not> notna (cell_of r c)) (rows df)\<rparr>"
    by (simp add: sort_values_def)
  show "columns df0 = columns df" by (simp add: df0)
  show "set (rows df0) = set (rows df)" by (auto simp add: df0)
  show "length (rows df0) = length (rows df)"
    by (simp add: df0 sum_length_filter_compl)
  show "c \<in> set (columns df)" by (rule c)
qed

lemma sort_values_wf:
  "sort_values df c = Inr df0 \<Longrightarrow> wf_frame df \<Longrightarrow> wf_frame df0"
  by (simp add: wf_frame_def sort_values_shape)

lemma sort_values_ok:
  "c \<in> set (columns df) \<Longrightarrow> \<exists>df0. sort_values df c = Inr df0"
  by (simp add: sort_values_def)

lemma simulate_states:
  assumes "sort_values df fecha = Inr df0"
  shows "simulate_recursive_predictions df model fc d a =
           Inr (warnings (states model fc df0 (length (rows df0))),
                set_column_list (df_sim (states model fc df0 (length (rows df0)))) predicciones
                  (map Num (predictions (states model fc df0 (length (rows df0))))))"
  by (simp add: simulate_recursive_predictions_def assms sim_loop_states)

lemma set_column_list_nth:
  "length vs = length (rows df) \<Longrightarrow> i < length (rows df) \<Longrightarrow>
     rows (set_column_list df c vs) ! i = (rows df ! i)(c \<mapsto> vs ! i)"
  by (simp add: set_column_list_def)

lemma set_column_list_length:
  "length vs = length (rows df) \<Longrightarrow> length (rows (set_column_list df c vs)) = length (rows df)"
  by (simp add: set_column_list_def)

lemma features_at_states:
  "k < length (rows df0) \<Longrightarrow>
     features_at model fc df0 k = Inr (day_features fc (df_sim (states model fc df0 k)) k)"
  by (simp add: features_at_def sim_loop_states iloc_rows_def states_shape
      prepare_prediction_data_Inr day_features_def)

lemma raises_on_states:
  "k < length (rows df0) \<Longrightarrow>
     raises_on model fc df0 k = (model (day_features fc (df_sim (states model fc df0 k)) k) = None)"
  by (simp add: raises_on_def features_at_states)

lemma unidades_not_lag:
  "unidades_vendidas \<notin> lag_col ` {1..7} \<and> unidades_vendidas \<noteq> ma7_col"
  by (auto simp add: unidades_vendidas_def lag_col_def ma7_col_def)

lemma cell_of_align:
  "c \<in> set cs \<Longrightarrow> cell_of (align_row cs r) c = cell_of r c"
  by (simp add: align_row_def cell_of_def)

lemma states_target:
  assumes "unidades_vendidas \<in> set (columns df0)"
  shows "map (\<lambda>r. cell_of r unidades_vendidas) (rows (df_sim (states model fc df0 k)))
           = map (\<lambda>r. cell_of r unidades_vendidas) (rows df0)"
proof (induction k)
  case 0
  then show ?case by (simp add: sim_init_def)
next
  case (Suc k)
  let ?s = "states model fc df0 k"
  show ?case
  proof (cases "Suc k < length (rows df0)")
    case False
    then show ?thesis using Suc by (simp add: states_Suc_rows)
  next
    case True
    let ?r = "fst (update_lags (rows (df_sim ?s) ! Suc k) (day_pred model fc (df_sim ?s) k) (lag_history ?s))"
    have "cell_of (align_row (columns df0) ?r) unidades_vendidas
            = cell_of (rows (df_sim ?s) ! Suc k) unidades_vendidas"
      unfolding cell_of_align [OF assms]
      by (simp add: cell_of_def update_lags_other [OF unidades_not_lag])
    then have "map (\<lambda>r. cell_of r unidades_vendidas) (rows (df_sim (states model fc df0 (Suc k))))
        = (map (\<lambda>r. cell_of r unidades_vendidas) (rows (df_sim ?s)))
             [Suc k := cell_of (rows (df_sim ?s) ! Suc k) unidades_vendidas]"
      using True by (simp add: states_Suc_rows Let_def map_update)
    also have "\<dots> = map (\<lambda>r. cell_of r unidades_vendidas) (rows (df_sim ?s))"
      using True by (simp add: list_update_same_conv states_shape)
    finally show ?thesis using Suc by simp
  qed
qed

lemma states_fallback:
  assumes "idx < length (rows df0)"
  shows "fallback_value (df_sim (states model fc df0 k)) idx = fallback_value df0 idx"
proof (cases "unidades_vendidas \<in> set (columns df0)")
  case False
  then show ?thesis by (simp add: fallback_value_def states_shape)
next
  case True
  let ?df = "df_sim (states model fc df0 k)"
  let ?f = "\<lambda>r. cell_of r unidades_vendidas"
  have m: "map ?f (rows ?df) = map ?f (rows df0)"
    by (rule states_target [OF True])
  have ex: "list_ex (\<lambda>r. notna (?f r)) (rows ?df) = list_ex (\<lambda>r. notna (?f r)) (rows df0)"
  proof -
    have "list_ex (\<lambda>r. notna (?f r)) xs = list_ex notna (map ?f xs)" for xs
      by (simp add: list_ex_iff)
    then show ?thesis by (simp add: m)
  qed
  have mean_eq: "column_mean ?df unidades_vendidas = column_mean df0 unidades_vendidas"
    by (simp add: column_mean_def m)
  have "map ?f (rows ?df) ! idx = map ?f (rows df0) ! idx" by (simp add: m)
  with assms have cell: "?f (rows ?df ! idx) = ?f (rows df0 ! idx)"
    by (simp add: states_shape)
  show ?thesis
    unfolding fallback_value_def ex mean_eq cell by (simp add: states_shape)
qed

lemma states_warnings_mono:
  "k \<le> k' \<Longrightarrow> set (warnings (states model fc df0 k)) \<subseteq> set (warnings (states model fc df0 k'))"
proof (induction k')
  case 0
  then show ?case by simp
next
  case (Suc k')
  show ?case
  proof (cases "k = Suc k'")
    case True
    then show ?thesis by simp
  next
    case False
    with Suc.prems have "k \<le> k'" by simp
    then show ?thesis using Suc.IH by (auto simp add: states_warnings_step)
  qed
qed

lemma simulate_out_row:
  assumes "sort_values df fecha = Inr df0" and "j < length (rows df0)"
    and "simulate_recursive_predictions df model fc d a = Inr (ws, out)"
  shows "rows out ! j =
           (rows (df_sim (states model fc df0 j)) ! j)
             (predicciones \<mapsto> Num (day_pred model fc (df_sim (states model fc df0 j)) j))"
    and "length (rows out) = length (rows df0)"
    and "ws = warnings (states model fc df0 (length (rows df0)))"
proof -
  let ?n = "length (rows df0)"
  let ?s = "states model fc df0 ?n"
  from assms(3) have out: "out = set_column_list (df_sim ?s) predicciones (map Num (predictions ?s))"
    and ws: "ws = warnings ?s"
    unfolding simulate_states [OF assms(1)] by simp_all
  have len: "length (map Num (predictions ?s)) = length (rows (df_sim ?s))"
    by (simp add: states_shape)
  have "rows out ! j = (rows (df_sim ?s) ! j)(predicciones \<mapsto> map Num (predictions ?s) ! j)"
    unfolding out using assms(2) by (simp add: set_column_list_nth [OF len] states_shape)
  moreover have "map Num (predictions ?s) ! j = Num (day_pred model fc (df_sim (states model fc df0 j)) j)"
    using assms(2) by (simp add: states_shape states_prediction_nth)
  moreover have "rows (df_sim ?s) ! j = rows (df_sim (states model fc df0 j)) ! j"
    using assms(2) by (simp add: states_frozen)
  ultimately show "rows out ! j =
           (rows (df_sim (states model fc df0 j)) ! j)
             (predicciones \<mapsto> Num (day_pred model fc (df_sim (states model fc df0 j)) j))"
    by simp
  show "length (rows out) = length (rows df0)"
    unfolding out by (simp add: set_column_list_length [OF len] states_shape)
  show "ws = warnings ?s" by (rule ws)
qed

lemmas name_defs = fecha_def unidades_vendidas_def predicciones_def

lemmas run_defs = simulate_recursive_predictions_def sort_values_def sim_init_def
  sim_step_def iloc_rows_def loc_row_def set_loc_def predict_day_def fallback_pred_def
  column_mean_def mean_def cell_of_def set_column_list_def add_label_def table_def
  prepare_prediction_data_def getitem_cols_def fill_missing_def set_column_def
  align_row_def update_lags_def shift_lags_def shift_lag_def

lemma lag_col_Suc0: "lag_col (Suc 0) = ''unidades_vendidas_lag1''"
  using lag_col_simps(1) by simp

lemma wf_row_Some:
  "wf_frame df \<Longrightarrow> i < length (rows df) \<Longrightarrow> c \<in> set (columns df) \<Longrightarrow> \<exists>v. (rows df ! i) c = Some v"
proof -
  assume "wf_frame df" "i < length (rows df)" "c \<in> set (columns df)"
  then have "c \<in> dom (rows df ! i)" by (simp add: wf_frame_def)
  then show ?thesis by blast
qed

lemma states_history_bound:
  "length (lag_history (states model fc df0 k)) \<le> 7"
proof (induction k)
  case 0
  then show ?case by (simp add: sim_init_def)
next
  case (Suc k)
  then show ?case by (simp add: states_Suc_history Let_def snd_update_lags)
qed

lemma simulate_recorded:
  assumes "sort_values df fecha = Inr df0"
    and "simulate_recursive_predictions df model fc d a = Inr (ws, out)"
    and "k \<le> length (rows df0)"
  shows "predictions (states model fc df0 k) =
           map (\<lambda>j. num_of (cell_of (rows out ! j) predicciones)) [0..<k]"
proof (rule nth_equalityI)
  show "length (predictions (states model fc df0 k)) =
          length (map (\<lambda>j. num_of (cell_of (rows out ! j) predicciones)) [0..<k])"
    by (simp add: states_shape)
next
  fix i assume "i < length (predictions (states model fc df0 k))"
  then have i: "i < k" by (simp add: states_shape)
  with assms(3) have il: "i < length (rows df0)" by simp
  have "predictions (states model fc df0 k) ! i
          = day_pred model fc (df_sim (states model fc df0 i)) i"
    by (rule states_prediction_nth [OF i])
  moreover have "num_of (cell_of (rows out ! i) predicciones)
          = day_pred model fc (df_sim (states model fc df0 i)) i"
    unfolding simulate_out_row(1) [OF assms(1) il assms(2)] by (simp add: cell_of_def)
  ultimately show "predictions (states model fc df0 k) ! i =
      map (\<lambda>j. num_of (cell_of (rows out ! j) predicciones)) [0..<k] ! i"
    using i by simp
qed

lemma nine_days_run:
  "(case simulate_recursive_predictions nine_days date_model [fecha] 0 0 of
      Inl e \<Rightarrow> None
    | Inr (ws, out) \<Rightarrow> Some (ws, columns out, table out))
     = Some ([], [fecha, ma7_col, predicciones],
          [[Num 1, NaN, Num 1], [Num 2, Num 1, Num 2], [Num 3, Num (3 / 2), Num 3],
           [Num 4, Num 2, Num 4], [Num 5, Num (5 / 2), Num 5], [Num 6, Num 3, Num 6],
           [Num 7, Num (7 / 2), Num 7], [Num 8, Num 4, Num 8], [Num 9, Num 5, Num 9]])"
  by (simp add: nine_days_def date_model_def run_defs name_defs lag_col_simps lag_col_Suc0
      ma7_col_def upt_rec Let_def)

lemma table_nth:
  "j < length (rows df) \<Longrightarrow> i < length (columns df) \<Longrightarrow>
     table df ! j ! i = cell_of (rows df ! j) (columns df ! i)"
  by (simp add: table_def)

lemma predicted_value_clamped:
  assumes "sort_values df fecha = Inr df0" and "k < length (rows df0)"
    and "\<not> raises_on model fc df0 k"
    and "simulate_recursive_predictions df model fc d a = Inr (ws, out)"
  shows "\<exists>p. cell_at out k predicciones = Some (Num p) \<and> 0 \<le> p"
proof -
  from assms(2,3) obtain y where "model (day_features fc (df_sim (states model fc df0 k)) k) = Some y"
    by (auto simp add: raises_on_states)
  then have "day_pred model fc (df_sim (states model fc df0 k)) k = max 0 y"
    by (simp add: day_pred_def)
  then show ?thesis
    unfolding cell_at_def simulate_out_row(1) [OF assms(1,2,4)] by simp
qed

lemma scale_if_present_shape:
  "set (columns df) \<subseteq> set (columns (scale_if_present f df c))"
  "length (rows (scale_if_present f df c)) = length (rows df)"
  by (auto simp add: scale_if_present_def set_column_columns set_add_label set_column_length)

lemma foldl_scale_shape:
  "set (columns df) \<subseteq> set (columns (foldl (scale_if_present f) df cs))
     \<and> length (rows (foldl (scale_if_present f) df cs)) = length (rows df)"
proof (induction cs arbitrary: df)
  case Nil
  then show ?case by simp
next
  case (Cons c cs)
  have a: "set (columns df) \<subseteq> set (columns (scale_if_present f df c))"
    and b: "length (rows (scale_if_present f df c)) = length (rows df)"
    by (rule scale_if_present_shape)+
  from Cons [where df = "scale_if_present f df c"] a b
  show ?case by auto
qed

lemma apply_competition_shape:
  "set (columns df) \<subseteq> set (columns (apply_competition_scenario df adj))"
  "length (rows (apply_competition_scenario df adj)) = length (rows df)"
proof -
  define f where "f = 1 + adj / 100"
  define d1 where "d1 = (if precio_competencia \<in> set (columns df) then
                      (let d1 = set_column df precio_competencia
                                  (\<lambda>r. cell_scale (cell_of r precio_competencia) f)
                       in if precio_venta \<in> set (columns d1)
                          then set_column d1 ratio_precio
                                 (\<lambda>r. cell_div (cell_of r precio_venta) (cell_of r precio_competencia))
                          else d1)
                    else df)"
  have a: "set (columns df) \<subseteq> set (columns d1)" and a': "length (rows d1) = length (rows df)"
    unfolding d1_def
    by (auto simp add: Let_def set_column_columns set_add_label set_column_length)
  have b: "apply_competition_scenario df adj =
      (if adj = 0 then df else foldl (scale_if_present f) d1 [''Amazon'', ''Decathlon'', ''Deporvillage''])"
    unfolding d1_def f_def by (simp add: apply_competition_scenario_def Let_def)
  note c = foldl_scale_shape [where df = d1 and f = f and cs = "[''Amazon'', ''Decathlon'', ''Deporvillage'']"]
  show "set (columns df) \<subseteq> set (columns (apply_competition_scenario df adj))"
  proof (cases "adj = 0")
    case True
    then show ?thesis by (simp add: apply_competition_scenario_def)
  next
    case False
    then have "apply_competition_scenario df adj
        = foldl (scale_if_present f) d1 [''Amazon'', ''Decathlon'', ''Deporvillage'']"
      by (simp only: b if_False)
    with a c show ?thesis by (simp only:) blast
  qed
  show "length (rows (apply_competition_scenario df adj)) = length (rows df)"
  proof (cases "adj = 0")
    case True
    then show ?thesis by (simp add: apply_competition_scenario_def)
  next
    case False
    then have "apply_competition_scenario df adj
        = foldl (scale_if_present f) d1 [''Amazon'', ''Decathlon'', ''Deporvillage'']"
      by (simp only: b if_False)
    with a' c show ?thesis by (simp only:)
  qed
qed

lemma apply_discount_shape:
  "set (columns df) \<subseteq> set (columns (apply_discount_to_dataframe df d))"
  "length (rows (apply_discount_to_dataframe df d)) = length (rows df)"
  by (auto simp add: apply_discount_to_dataframe_def Let_def set_column_columns set_add_label
      set_column_length)

lemma st_set_column_fresh:
  "st_set_column (length h) c g (h @ [x]) = h @ [set_column x c g]"
  by (simp add: st_set_column_def)

lemma apply_discount_st_eq:
  "a < length h \<Longrightarrow>
     apply_discount_to_dataframe_st a d h = (length h, h @ [apply_discount_to_dataframe (h ! a) d])"
  by (simp add: apply_discount_to_dataframe_st_def apply_discount_to_dataframe_def st_copy_def
      st_new_def Let_def st_set_column_fresh nth_append)

lemma foldl_st_scale:
  "foldl (st_scale_if_present f (length h)) (h @ [x]) cs = h @ [foldl (scale_if_present f) x cs]"
proof (induction cs arbitrary: x)
  case Nil
  then show ?case by simp
next
  case (Cons c cs)
  have "st_scale_if_present f (length h) (h @ [x]) c = h @ [scale_if_present f x c]"
    by (simp add: st_scale_if_present_def scale_if_present_def st_set_column_fresh)
  then show ?case by (simp add: Cons.IH)
qed

lemma apply_competition_st_eq:
  "a < length h \<Longrightarrow>
     apply_competition_scenario_st a adj h = (length h, h @ [apply_competition_scenario (h ! a) adj])"
  by (simp add: apply_competition_scenario_st_def apply_competition_scenario_def st_copy_def
      st_new_def Let_def st_set_column_fresh nth_append foldl_st_scale del: foldl.simps)

lemma foldl_st_fill:
  "foldl (st_fill_missing (length h)) (h @ [x]) cs = h @ [foldl fill_missing x cs]"
proof (induction cs arbitrary: x)
  case Nil
  then show ?case by simp
next
  case (Cons c cs)
  have "st_fill_missing (length h) (h @ [x]) c = h @ [fill_missing x c]"
    by (simp add: st_fill_missing_def fill_missing_def st_set_column_fresh)
  then show ?case by (simp add: Cons.IH)
qed

lemma prepare_st_eq:
  assumes "a < length h"
  shows "prepare_prediction_data_st a fc h =
     Inr (length h + 2,
          h @ [foldl fill_missing (h ! a) fc,
               \<lparr>columns = fc, rows = map (resolve_row (columns (h ! a)) fc) (rows (h ! a))\<rparr>,
               \<lparr>columns = fc, rows = map (resolve_row (columns (h ! a)) fc) (rows (h ! a))\<rparr>])"
proof -
  have g: "getitem_cols (foldl fill_missing (h ! a) fc) fc =
      Inr \<lparr>columns = fc, rows = map (resolve_row (columns (h ! a)) fc) (rows (h ! a))\<rparr>"
    using prepare_prediction_data_Inr [of "h ! a" fc]
    by (simp add: prepare_prediction_data_def)
  show ?thesis using assms
    by (simp add: prepare_prediction_data_st_def st_copy_def st_new_def Let_def foldl_st_fill
        nth_append g)
qed

lemma sim_step_st_eq:
  assumes r: "r < length (heap s)" and i: "idx < length (rows (heap s ! r))"
  shows "\<exists>s'. sim_step_st model fc r s idx = Inr s'
      \<and> abs_state r s' = step_val model fc (abs_state r s) idx
      \<and> length (heap s) \<le> length (heap s')
      \<and> (\<forall>x < length (heap s). x \<noteq> r \<longrightarrow> heap s' ! x = heap s ! x)"
proof -
  let ?H = "heap s"
  let ?one = "(?H ! r)\<lparr>rows := [rows (?H ! r) ! idx]\<rparr>"
  let ?X = "day_features fc (?H ! r) idx"
  let ?h3 = "?H @ [?one, ?one, foldl fill_missing ?one fc, ?X, ?X]"
  let ?pred = "day_pred model fc (?H ! r) idx"
  let ?ws = "warnings_st s @ day_warnings model fc (?H ! r) idx"
  have il: "iloc_rows (?H ! r) idx = Inr ?one" using i by (simp add: iloc_rows_def)
  have pr: "prepare_prediction_data_st (Suc (length ?H)) fc (?H @ [?one, ?one]) = Inr (length ?H + 4, ?h3)"
    using prepare_st_eq [of "Suc (length ?H)" "?H @ [?one, ?one]" fc]
    by (simp add: nth_append day_features_def)
  have x: "?h3 ! (length ?H + 4) = ?X"
    by (simp add: nth_append)
  have hr: "?h3 ! r = ?H ! r" using r by (simp add: nth_append)
  have pd: "predict_day model ?X (?H ! r) (warnings_st s) idx = Inr (?pred, ?ws)"
    using i
    by (simp add: predict_day_def day_pred_def day_warnings_def fallback_pred_Inr
        split: option.splits)
  show ?thesis
  proof (cases "Suc idx < length (rows (?H ! r))")
    case True
    then have c: "int idx < int (length (rows (?H ! r))) - 1" by simp
    let ?u = "update_lags (rows (?H ! r) ! Suc idx) ?pred (lag_history_st s)"
    let ?s' = "s\<lparr>heap := st_set_loc r (Suc idx) (fst ?u) ?h3,
                   predictions_st := predictions_st s @ [?pred], warnings_st := ?ws,
                   lag_history_st := snd ?u\<rparr>"
    have "sim_step_st model fc r s idx = Inr ?s'"
      using True c r
      by (simp add: sim_step_st_def il st_new_def st_copy_def pr x hr pd Let_def
          loc_row_def split: prod.splits)
    moreover have "abs_state r ?s' = step_val model fc (abs_state r s) idx"
      using True r
      by (simp add: abs_state_def step_val_def Let_def st_set_loc_def set_loc_def hr)
    moreover have "length (heap s) \<le> length (heap ?s')"
      by (simp add: st_set_loc_def)
    moreover have "\<forall>x < length (heap s). x \<noteq> r \<longrightarrow> heap ?s' ! x = heap s ! x"
      by (simp add: st_set_loc_def nth_append)
    ultimately show ?thesis by blast
  next
    case False
    then have c: "\<not> int idx < int (length (rows (?H ! r))) - 1" by simp
    let ?s' = "s\<lparr>heap := ?h3, predictions_st := predictions_st s @ [?pred], warnings_st := ?ws\<rparr>"
    have "sim_step_st model fc r s idx = Inr ?s'"
      using False c r
      by (simp add: sim_step_st_def il st_new_def st_copy_def pr x hr pd Let_def)
    moreover have "abs_state r ?s' = step_val model fc (abs_state r s) idx"
      using False r
      by (simp add: abs_state_def step_val_def Let_def hr)
    moreover have "length (heap s) \<le> length (heap ?s')" by simp
    moreover have "\<forall>x < length (heap s). x \<noteq> r \<longrightarrow> heap ?s' ! x = heap s ! x"
      by (simp add: nth_append)
    ultimately show ?thesis by blast
  qed
qed

lemma sim_loop_st_eq:
  assumes "r < length (heap s)" and "\<forall>idx \<in> set days. idx < length (rows (heap s ! r))"
  shows "\<exists>s'. sim_loop_st model fc r days s = Inr s'
      \<and> sim_loop model fc days (abs_state r s) = Inr (abs_state r s')
      \<and> length (heap s) \<le> length (heap s')
      \<and> (\<forall>x < length (heap s). x \<noteq> r \<longrightarrow> heap s' ! x = heap s ! x)"
  using assms
proof (induction days arbitrary: s)
  case Nil
  then show ?case by simp
next
  case (Cons idx days)
  from Cons.prems have i: "idx < length (rows (heap s ! r))" by simp
  from sim_step_st_eq [OF Cons.prems(1) i, of model fc]
  obtain s1 where st: "sim_step_st model fc r s idx = Inr s1"
    and ab: "abs_state r s1 = step_val model fc (abs_state r s) idx"
    and le: "length (heap s) \<le> length (heap s1)"
    and keep: "\<forall>x < length (heap s). x \<noteq> r \<longrightarrow> heap s1 ! x = heap s ! x"
    by blast
  have r1: "r < length (heap s1)" using Cons.prems(1) le by simp
  have "length (rows (df_sim (abs_state r s1))) = length (rows (df_sim (abs_state r s)))"
    by (simp only: ab step_val_shape)
  then have "length (rows (heap s1 ! r)) = length (rows (heap s ! r))"
    by (simp add: abs_state_def)
  with Cons.prems have d1: "\<forall>idx \<in> set days. idx < length (rows (heap s1 ! r))" by simp
  from Cons.IH [OF r1 d1]
  obtain s' where lp: "sim_loop_st model fc r days s1 = Inr s'"
    and lv: "sim_loop model fc days (abs_state r s1) = Inr (abs_state r s')"
    and le': "length (heap s1) \<le> length (heap s')"
    and keep': "\<forall>x < length (heap s1). x \<noteq> r \<longrightarrow> heap s' ! x = heap s1 ! x"
    by blast
  have vs: "sim_step model fc (abs_state r s) idx = Inr (abs_state r s1)"
    unfolding ab by (rule sim_step_val) (use i in \<open>simp add: abs_state_def\<close>)
  have "sim_loop_st model fc r (idx # days) s = Inr s'" by (simp add: st lp)
  moreover have "sim_loop model fc (idx # days) (abs_state r s) = Inr (abs_state r s')"
    by (simp add: vs lv)
  moreover have "length (heap s) \<le> length (heap s')" using le le' by simp
  moreover have "\<forall>x < length (heap s). x \<noteq> r \<longrightarrow> heap s' ! x = heap s ! x"
    using keep keep' le by auto
  ultimately show ?case by blast
qed

lemma simulate_st_eq:
  assumes a: "a < length h"
  shows "(case simulate_recursive_predictions_st a model fc d adj h of
            Inl e \<Rightarrow> simulate_recursive_predictions (h ! a) model fc d adj = Inl e
          | Inr (ws, b, h') \<Rightarrow>
              simulate_recursive_predictions (h ! a) model fc d adj = Inr (ws, h' ! b)
              \<and> length h \<le> b \<and> b < length h'
              \<and> (\<forall>x < length h. h' ! x = h ! x))"
proof (cases "sort_values (h ! a) fecha")
  case (Inl e)
  then show ?thesis using a
    by (simp add: simulate_recursive_predictions_st_def simulate_recursive_predictions_def
        st_copy_def st_new_def nth_append)
next
  case (Inr df0)
  let ?h3 = "h @ [h ! a, df0, df0]"
  let ?r = "length h + 2"
  let ?s0 = "\<lparr>heap = ?h3, predictions_st = [], lag_history_st = [], warnings_st = []\<rparr>"
  have hr: "?h3 ! ?r = df0" by (simp add: nth_append)
  have ab0: "abs_state ?r ?s0 = sim_init df0"
    by (simp add: abs_state_def sim_init_def nth_append)
  have r: "?r < length (heap ?s0)" by simp
  have days: "\<forall>idx \<in> set [0..<length (rows df0)]. idx < length (rows (heap ?s0 ! ?r))"
    by (simp add: nth_append)
  from sim_loop_st_eq [OF r days, of model fc]
  obtain s' where lp: "sim_loop_st model fc ?r [0..<length (rows df0)] ?s0 = Inr s'"
    and lv: "sim_loop model fc [0..<length (rows df0)] (sim_init df0) = Inr (abs_state ?r s')"
    and le: "length ?h3 \<le> length (heap s')"
    and keep: "\<forall>x < length ?h3. x \<noteq> ?r \<longrightarrow> heap s' ! x = ?h3 ! x"
    unfolding ab0 by auto
  let ?out = "st_set_column_list ?r predicciones (map Num (predictions_st s')) (heap s')"
  have st: "simulate_recursive_predictions_st a model fc d adj h = Inr (warnings_st s', ?r, ?out)"
    using a Inr lp
    by (simp add: simulate_recursive_predictions_st_def st_copy_def st_new_def nth_append Let_def)
  have rl: "?r < length (heap s')" using le by simp
  have v: "simulate_recursive_predictions (h ! a) model fc d adj = Inr (warnings_st s', ?out ! ?r)"
    using rl
    by (simp add: simulate_recursive_predictions_def Inr lv abs_state_def st_set_column_list_def)
  have k: "\<forall>x < length h. ?out ! x = h ! x"
    using keep by (simp add: st_set_column_list_def nth_append)
  have "?r < length ?out" using rl by (simp add: st_set_column_list_def)
  with v k show ?thesis unfolding st by simp
qed

lemma run_scenario_st_eq:
  assumes a: "a < length h"
  shows "(case run_scenario_st a d adj model fc h of
            Inl e \<Rightarrow> run_scenario (h ! a) d adj model fc = Inl e
          | Inr (ws, b, h') \<Rightarrow>
              run_scenario (h ! a) d adj model fc = Inr (ws, h' ! b)
              \<and> length h \<le> b \<and> b < length h'
              \<and> (\<forall>x < length h. h' ! x = h ! x))"
proof -
  let ?d = "apply_discount_to_dataframe (h ! a) d"
  let ?c = "apply_competition_scenario ?d adj"
  let ?h3 = "h @ [h ! a, ?d, ?c]"
  have c1: "st_copy a h = (length h, h @ [h ! a])" by (simp add: st_copy_def st_new_def)
  have c2: "apply_discount_to_dataframe_st (length h) d (h @ [h ! a]) = (Suc (length h), h @ [h ! a, ?d])"
    using apply_discount_st_eq [of "length h" "h @ [h ! a]" d] by simp
  have c3: "apply_competition_scenario_st (Suc (length h)) adj (h @ [h ! a, ?d]) = (length h + 2, ?h3)"
    using apply_competition_st_eq [of "Suc (length h)" "h @ [h ! a, ?d]" adj] by (simp add: nth_append)
  have run: "run_scenario_st a d adj model fc h =
      simulate_recursive_predictions_st (length h + 2) model fc d adj ?h3"
    by (simp add: run_scenario_st_def c1 c2 c3)
  have l: "length h + 2 < length ?h3" by simp
  have n: "?h3 ! (length h + 2) = ?c" by (simp add: nth_append)
  from simulate_st_eq [OF l, of model fc d adj]
  show ?thesis
    unfolding run n run_scenario_def
    by (auto simp add: nth_append split: sum.splits)
qed

lemma result_of_run_scenario_st:
  "a < length h \<Longrightarrow> result_of (run_scenario_st a d adj model fc h) = run_scenario (h ! a) d adj model fc"
  using run_scenario_st_eq [of a h d adj model fc]
  by (auto simp add: result_of_def split: sum.splits)

lemma cell_at_resolve:
  assumes "prepare_prediction_data df fc = Inr X" and "i < length (rows df)"
  shows "cell_at X i c =
           (if c \<in> set fc then (if c \<in> set (columns df) then cell_at df i c else Some (Num 0))
            else None)"
  using assms by (auto simp add: prepare_prediction_data_Inr cell_at_def resolve_row_def)

lemma one_day_scenario_runs:
  "(case run_scenario one_day 10 5 (\<lambda>X. Some 3) [] of Inl e \<Rightarrow> False | Inr res \<Rightarrow> True)"
  by (simp add: run_scenario_def one_day_def apply_discount_to_dataframe_def
      apply_competition_scenario_def scale_if_present_def col_defs run_defs name_defs upt_rec Let_def)

section \<open>The claims\<close>

text \<open>
  C10. \<open>update_lags\<close> on a row, a predicted value and a history: for each distance
  \<open>d\<close> from 2 to 7 the new \<open>lag_d\<close> is the row's own \<open>lag_{d-1}\<close> as it was before the
  call, and \<open>lag_d\<close> is left as it was when the row has no \<open>lag_{d-1}\<close>; \<open>lag_1\<close> is the
  predicted value and the rolling average is the mean of the updated history, both
  written whether or not the row had them; the history gets the value appended and
  loses its oldest entry once it would exceed 7; every other label keeps its cell.
  The function has the next row as its only row argument.
\<close>

theorem update_lags_edge_semantics:
  assumes "update_lags r p h = (r', h')"
  shows "(\<forall>d \<in> {2..7}. r' (lag_col d) =
            (case r (lag_col (d - 1)) of None \<Rightarrow> r (lag_col d) | Some v \<Rightarrow> Some v))
       \<and> r' (lag_col 1) = Some (Num p)
       \<and> r' ma7_col = Some (Num (mean h'))
       \<and> h' = (if length h < 7 then h @ [p] else tl (h @ [p]))
       \<and> (\<forall>c. c \<notin> lag_col ` {1..7} \<and> c \<noteq> ma7_col \<longrightarrow> r' c = r c)"
proof -
  have r': "r' = fst (update_lags r p h)" and h': "h' = snd (update_lags r p h)"
    using assms by simp_all
  have lags: "\<forall>d \<in> {2..7}. r' (lag_col d) =
      (case r (lag_col (d - 1)) of None \<Rightarrow> r (lag_col d) | Some v \<Rightarrow> Some v)"
    unfolding r' by (blast intro: update_lags_lag)
  have one: "r' (lag_col 1) = Some (Num p)"
    unfolding r' by (rule update_lags_lag1)
  have ma: "r' ma7_col = Some (Num (mean h'))"
    unfolding r' h' by (rule update_lags_ma7)
  have hist: "h' = (if length h < 7 then h @ [p] else tl (h @ [p]))"
    unfolding h' by (rule snd_update_lags)
  have other: "\<forall>c. c \<notin> lag_col ` {1..7} \<and> c \<noteq> ma7_col \<longrightarrow> r' c = r c"
    unfolding r' by (blast intro: update_lags_other)
  show ?thesis using lags one ma hist other by blast
qed

theorem update_lags_edge_semantics_witness:
  "\<exists>r' h'. update_lags [lag_col 1 \<mapsto> Num 5, lag_col 2 \<mapsto> Num 3] 4 [1, 2] = (r', h')
      \<and> r' (lag_col 2) = Some (Num 5) \<and> r' (lag_col 3) = Some (Num 3)
      \<and> r' (lag_col 4) = None
      \<and> r' (lag_col 1) = Some (Num 4) \<and> r' ma7_col = Some (Num (7 / 3))
      \<and> h' = [1, 2, 4] \<and> r' precio_venta = None"
proof -
  let ?r = "[lag_col 1 \<mapsto> Num 5, lag_col 2 \<mapsto> Num 3]"
  obtain r' h' where eq: "update_lags ?r 4 [1, 2] = (r', h')"
    by (cases "update_lags ?r 4 [1, 2]")
  note th = update_lags_edge_semantics [OF eq]
  from th have lags: "\<forall>d \<in> {2..7}. r' (lag_col d) =
      (case ?r (lag_col (d - 1)) of None \<Rightarrow> ?r (lag_col d) | Some v \<Rightarrow> Some v)"
    by blast
  have l2: "r' (lag_col 2) = Some (Num 5)"
    using bspec [OF lags, of 2] by (simp add: lag_col_eq_iff)
  have l3: "r' (lag_col 3) = Some (Num 3)"
    using bspec [OF lags, of 3] by (simp add: lag_col_eq_iff)
  have l4: "r' (lag_col 4) = None"
    using bspec [OF lags, of 4] by (simp add: lag_col_eq_iff)
  from th have h: "h' = [1, 2, 4]" by simp
  from th have l1: "r' (lag_col 1) = Some (Num 4)" by blast
  from th have "r' ma7_col = Some (Num (mean h'))" by blast
  then have ma: "r' ma7_col = Some (Num (7 / 3))" by (simp add: h mean_def)
  have "precio_venta \<notin> lag_col ` {1..7} \<and> precio_venta \<noteq> ma7_col"
    by (auto simp add: precio_venta_def lag_col_def ma7_col_def)
  with th have "r' precio_venta = ?r precio_venta" by blast
  then have pv: "r' precio_venta = None"
    by (simp add: precio_venta_def lag_col_def)
  show ?thesis using eq l2 l3 l4 l1 ma h pv by blast
qed

text \<open>
  C5. \<open>apply_discount_to_dataframe\<close>: with a base-price column, every row gets selling
  price = base price times (1 - discount_pct / 100); the discount-percentage column,
  when the frame has one, is overwritten with \<open>discount_pct\<close>; with a competitor-price
  column the ratio is the new selling price divided by the competitor price; nothing
  else changes. Without a base-price column the frame comes back as it was. Base price
  100 with discount 20 gives selling price 80 and ratio 80 / competitor price.
\<close>

theorem apply_discount_formula:
  "(precio_base \<in> set (columns df) \<longrightarrow>
      length (rows (apply_discount_to_dataframe df d)) = length (rows df)
    \<and> set (columns (apply_discount_to_dataframe df d)) =
        set (columns df) \<union> {precio_venta}
          \<union> (if precio_competencia \<in> set (columns df) then {ratio_precio} else {})
    \<and> (\<forall>i < length (rows df).
          cell_at (apply_discount_to_dataframe df d) i precio_venta
            = Some (cell_scale (cell_of (rows df ! i) precio_base) (1 - d / 100))
        \<and> cell_at (apply_discount_to_dataframe df d) i descuento_porcentaje
            = (if descuento_porcentaje \<in> set (columns df) then Some (Num d)
               else cell_at df i descuento_porcentaje)
        \<and> cell_at (apply_discount_to_dataframe df d) i ratio_precio
            = (if precio_competencia \<in> set (columns df)
               then Some (cell_div (cell_scale (cell_of (rows df ! i) precio_base) (1 - d / 100))
                                   (cell_of (rows df ! i) precio_competencia))
               else cell_at df i ratio_precio)
        \<and> (\<forall>c. c \<noteq> precio_venta \<and> c \<noteq> descuento_porcentaje \<and> c \<noteq> ratio_precio \<longrightarrow>
               cell_at (apply_discount_to_dataframe df d) i c = cell_at df i c)
        \<and> (\<forall>p. cell_of (rows df ! i) precio_base = Num 100 \<and> d = 20
                 \<and> precio_competencia \<in> set (columns df)
                 \<and> cell_of (rows df ! i) precio_competencia = Num p \<and> p \<noteq> 0 \<longrightarrow>
               cell_at (apply_discount_to_dataframe df d) i precio_venta = Some (Num 80)
             \<and> cell_at (apply_discount_to_dataframe df d) i ratio_precio = Some (Num (80 / p)))))
 \<and> (precio_base \<notin> set (columns df) \<longrightarrow> apply_discount_to_dataframe df d = df)"
proof (cases "precio_base \<in> set (columns df)")
  case False
  then show ?thesis by (simp add: apply_discount_to_dataframe_def)
next
  case True
  let ?out = "apply_discount_to_dataframe df d"
  have len: "length (rows ?out) = length (rows df)"
    by (simp add: apply_discount_to_dataframe_def Let_def set_column_length)
  have cols: "set (columns ?out) = set (columns df) \<union> {precio_venta}
          \<union> (if precio_competencia \<in> set (columns df) then {ratio_precio} else {})"
    using True
    by (auto simp add: apply_discount_to_dataframe_def Let_def set_column_columns set_add_label
        col_defs)
  have row: "rows ?out ! i =
      (let r = rows df ! i;
           r1 = r(precio_venta \<mapsto> cell_scale (cell_of r precio_base) (1 - d / 100));
           r2 = (if descuento_porcentaje \<in> set (columns df)
                 then r1(descuento_porcentaje \<mapsto> Num d) else r1)
       in if precio_competencia \<in> set (columns df)
          then r2(ratio_precio \<mapsto> cell_div (cell_of r2 precio_venta) (cell_of r2 precio_competencia))
          else r2)"
    if "i < length (rows df)" for i
    using True that
    by (simp add: apply_discount_to_dataframe_def Let_def set_column_rows_nth set_column_length
        set_column_columns set_add_label col_defs)
  have body: "cell_at ?out i precio_venta
            = Some (cell_scale (cell_of (rows df ! i) precio_base) (1 - d / 100))
        \<and> cell_at ?out i descuento_porcentaje
            = (if descuento_porcentaje \<in> set (columns df) then Some (Num d)
               else cell_at df i descuento_porcentaje)
        \<and> cell_at ?out i ratio_precio
            = (if precio_competencia \<in> set (columns df)
               then Some (cell_div (cell_scale (cell_of (rows df ! i) precio_base) (1 - d / 100))
                                   (cell_of (rows df ! i) precio_competencia))
               else cell_at df i ratio_precio)
        \<and> (\<forall>c. c \<noteq> precio_venta \<and> c \<noteq> descuento_porcentaje \<and> c \<noteq> ratio_precio \<longrightarrow>
               cell_at ?out i c = cell_at df i c)"
    if "i < length (rows df)" for i
    unfolding cell_at_def row [OF that]
    by (simp add: Let_def cell_of_def col_defs)
  have conc: "cell_at ?out i precio_venta = Some (Num 80)
             \<and> cell_at ?out i ratio_precio = Some (Num (80 / p))"
    if "i < length (rows df)" "cell_of (rows df ! i) precio_base = Num 100" "d = 20"
       "precio_competencia \<in> set (columns df)"
       "cell_of (rows df ! i) precio_competencia = Num p" "p \<noteq> 0" for i p
    using body [OF that(1)] that(2-) by simp
  show ?thesis using True len cols body conc by blast
qed

theorem apply_discount_formula_witness:
  "cell_at (apply_discount_to_dataframe
      \<lparr>columns = [precio_base, descuento_porcentaje, precio_competencia],
       rows = [[precio_base \<mapsto> Num 100, descuento_porcentaje \<mapsto> Num 0,
                precio_competencia \<mapsto> Num 50]]\<rparr> 20) 0 precio_venta = Some (Num 80)
   \<and> cell_at (apply_discount_to_dataframe
      \<lparr>columns = [precio_base, descuento_porcentaje, precio_competencia],
       rows = [[precio_base \<mapsto> Num 100, descuento_porcentaje \<mapsto> Num 0,
                precio_competencia \<mapsto> Num 50]]\<rparr> 20) 0 ratio_precio = Some (Num (80 / 50))
   \<and> cell_at (apply_discount_to_dataframe
      \<lparr>columns = [precio_base, descuento_porcentaje, precio_competencia],
       rows = [[precio_base \<mapsto> Num 100, descuento_porcentaje \<mapsto> Num 0,
                precio_competencia \<mapsto> Num 50]]\<rparr> 20) 0 descuento_porcentaje = Some (Num 20)
   \<and> apply_discount_to_dataframe
        \<lparr>columns = [precio_venta], rows = [[precio_venta \<mapsto> Num 7]]\<rparr> 20
       = \<lparr>columns = [precio_venta], rows = [[precio_venta \<mapsto> Num 7]]\<rparr>"
proof -
  let ?df = "\<lparr>columns = [precio_base, descuento_porcentaje, precio_competencia],
       rows = [[precio_base \<mapsto> Num 100, descuento_porcentaje \<mapsto> Num 0,
                precio_competencia \<mapsto> Num 50]]\<rparr>"
  let ?df2 = "\<lparr>columns = [precio_venta], rows = [[precio_venta \<mapsto> Num 7]]\<rparr>"
  have a: "precio_base \<in> set (columns ?df)" by simp
  have b: "(0::nat) < length (rows ?df)" by simp
  have c: "cell_of (rows ?df ! 0) precio_base = Num 100 \<and> (20::real) = 20
                 \<and> precio_competencia \<in> set (columns ?df)
                 \<and> cell_of (rows ?df ! 0) precio_competencia = Num 50 \<and> (50::real) \<noteq> 0"
    by (simp add: cell_of_def col_defs)
  have d: "descuento_porcentaje \<in> set (columns ?df)" by simp
  have e: "precio_base \<notin> set (columns ?df2)" by (simp add: col_defs)
  note t1 = apply_discount_formula [of ?df 20]
  note t2 = apply_discount_formula [of ?df2 20]
  from t1 a b c have "cell_at (apply_discount_to_dataframe ?df 20) 0 precio_venta = Some (Num 80)
     \<and> cell_at (apply_discount_to_dataframe ?df 20) 0 ratio_precio = Some (Num (80 / 50))"
    by blast
  moreover from t1 a b d
  have "cell_at (apply_discount_to_dataframe ?df 20) 0 descuento_porcentaje = Some (Num 20)"
    by presburger
  moreover from t2 e have "apply_discount_to_dataframe ?df2 20 = ?df2" by blast
  ultimately show ?thesis by blast
qed

text \<open>
  C6. \<open>apply_competition_scenario\<close> with adjustment 0 returns a frame equal to its input.
\<close>

theorem apply_competition_zero: "apply_competition_scenario df 0 = df"
  by (simp add: apply_competition_scenario_def)

text \<open>
  C3, as amended. When the frame has the date column the run returns a result, whatever
  the predictor does. For every day on which the predictor raises, a warning for that
  day is shown and the value recorded is: the day's own historical target, when the
  frame has the target column and the day's entry is not missing; else the mean of the
  entries of the target column that are not missing, when there is one; else 0. The
  targets are those of the sorted input frame, which the run never changes; no
  predicted value enters.
\<close>

theorem fallback_three_tier:
  assumes "sort_values df fecha = Inr df0"
  shows "\<exists>ws out. simulate_recursive_predictions df model fc d a = Inr (ws, out)
      \<and> length (rows out) = length (rows df0)
      \<and> (\<forall>k < length (rows df0). raises_on model fc df0 k \<longrightarrow>
            Suc k \<in> set ws
          \<and> cell_at out k predicciones = Some (Num
              (if unidades_vendidas \<in> set (columns df0)
                  \<and> notna (cell_of (rows df0 ! k) unidades_vendidas)
               then num_of (cell_of (rows df0 ! k) unidades_vendidas)
               else if unidades_vendidas \<in> set (columns df0)
                  \<and> (\<exists>r \<in> set (rows df0). notna (cell_of r unidades_vendidas))
               then column_mean df0 unidades_vendidas
               else 0)))"
proof -
  let ?n = "length (rows df0)"
  obtain ws out where sim: "simulate_recursive_predictions df model fc d a = Inr (ws, out)"
    using simulate_states [OF assms] by blast
  have len: "length (rows out) = ?n"
    using simulate_out_row(2) [OF assms _ sim] simulate_states [OF assms, of model fc d a] sim
    by (simp add: set_column_list_def states_shape)
  have day: "Suc k \<in> set ws \<and> cell_at out k predicciones = Some (Num
              (if unidades_vendidas \<in> set (columns df0)
                  \<and> notna (cell_of (rows df0 ! k) unidades_vendidas)
               then num_of (cell_of (rows df0 ! k) unidades_vendidas)
               else if unidades_vendidas \<in> set (columns df0)
                  \<and> (\<exists>r \<in> set (rows df0). notna (cell_of r unidades_vendidas))
               then column_mean df0 unidades_vendidas
               else 0))"
    if k: "k < ?n" and r: "raises_on model fc df0 k" for k
  proof -
    let ?s = "states model fc df0 k"
    from r k have none: "model (day_features fc (df_sim ?s) k) = None"
      by (simp add: raises_on_states)
    then have p: "day_pred model fc (df_sim ?s) k = fallback_value df0 k"
      by (simp add: day_pred_def states_fallback [OF k])
    from none have "Suc k \<in> set (warnings (states model fc df0 (Suc k)))"
      by (simp add: states_warnings_step day_warnings_def)
    moreover from k have "Suc k \<le> ?n" by simp
    ultimately have w: "Suc k \<in> set ws"
      using states_warnings_mono [of "Suc k" ?n model fc df0] simulate_out_row(3) [OF assms k sim]
      by blast
    have "cell_at out k predicciones = Some (Num (fallback_value df0 k))"
      unfolding cell_at_def simulate_out_row(1) [OF assms k sim] p by simp
    moreover have "fallback_value df0 k =
        (if unidades_vendidas \<in> set (columns df0)
                  \<and> notna (cell_of (rows df0 ! k) unidades_vendidas)
               then num_of (cell_of (rows df0 ! k) unidades_vendidas)
               else if unidades_vendidas \<in> set (columns df0)
                  \<and> (\<exists>r \<in> set (rows df0). notna (cell_of r unidades_vendidas))
               then column_mean df0 unidades_vendidas
               else 0)"
      using k by (auto simp add: fallback_value_def list_ex_iff)
    ultimately show ?thesis using w by simp
  qed
  show ?thesis using sim len day by blast
qed

text \<open>
  C3 as stated fails: with targets 2 and 4 and a predictor that raises on both days,
  the values recorded are 2 and 4, the days' own targets, and not the mean 3 of the
  targets.
\<close>

theorem fallback_is_day_target:
  "(case simulate_recursive_predictions
           \<lparr>columns = [fecha, unidades_vendidas],
            rows = [[fecha \<mapsto> Num 1, unidades_vendidas \<mapsto> Num 2],
                    [fecha \<mapsto> Num 2, unidades_vendidas \<mapsto> Num 4]]\<rparr>
           (\<lambda>X. None) [] 0 0 of
      Inl e \<Rightarrow> None
    | Inr (ws, out) \<Rightarrow> Some (ws, columns out, table out))
     = Some ([1, 2], [fecha, unidades_vendidas, predicciones],
             [[Num 1, Num 2, Num 2], [Num 2, Num 4, Num 4]])
   \<and> column_mean
         \<lparr>columns = [fecha, unidades_vendidas],
          rows = [[fecha \<mapsto> Num 1, unidades_vendidas \<mapsto> Num 2],
                  [fecha \<mapsto> Num 2, unidades_vendidas \<mapsto> Num 4]]\<rparr> unidades_vendidas = 3"
  by (simp add: run_defs name_defs lag_col_simps lag_col_Suc0 ma7_col_def upt_rec Let_def)

theorem fallback_three_tier_witness:
  "\<exists>ws out. simulate_recursive_predictions
           \<lparr>columns = [fecha, unidades_vendidas],
            rows = [[fecha \<mapsto> Num 1, unidades_vendidas \<mapsto> Num 2],
                    [fecha \<mapsto> Num 2, unidades_vendidas \<mapsto> NaN]]\<rparr>
           (\<lambda>X. None) [] 0 0 = Inr (ws, out)
      \<and> Suc 0 \<in> set ws \<and> cell_at out 0 predicciones = Some (Num 2)
      \<and> Suc 1 \<in> set ws \<and> cell_at out 1 predicciones = Some (Num 2)"
proof -
  let ?df = "\<lparr>columns = [fecha, unidades_vendidas],
            rows = [[fecha \<mapsto> Num 1, unidades_vendidas \<mapsto> Num 2],
                    [fecha \<mapsto> Num 2, unidades_vendidas \<mapsto> NaN]]\<rparr>"
  have srt: "sort_values ?df fecha = Inr ?df"
    by (simp add: sort_values_def cell_of_def name_defs)
  have r0: "raises_on (\<lambda>X. None) [] ?df 0"
    by (simp add: raises_on_def features_at_def iloc_rows_def sim_init_def
        prepare_prediction_data_Inr)
  have r1: "raises_on (\<lambda>X. None) [] ?df 1"
    by (simp add: raises_on_def features_at_states)
  have m: "column_mean ?df unidades_vendidas = 2"
    by (simp add: column_mean_def mean_def cell_of_def name_defs)
  from fallback_three_tier [OF srt, of "\<lambda>X. None" "[]" 0 0]
  obtain ws out where sim: "simulate_recursive_predictions ?df (\<lambda>X. None) [] 0 0 = Inr (ws, out)"
    and days: "\<forall>k < length (rows ?df). raises_on (\<lambda>X. None) [] ?df k \<longrightarrow>
            Suc k \<in> set ws
          \<and> cell_at out k predicciones = Some (Num
              (if unidades_vendidas \<in> set (columns ?df)
                  \<and> notna (cell_of (rows ?df ! k) unidades_vendidas)
               then num_of (cell_of (rows ?df ! k) unidades_vendidas)
               else if unidades_vendidas \<in> set (columns ?df)
                  \<and> (\<exists>r \<in> set (rows ?df). notna (cell_of r unidades_vendidas))
               then column_mean ?df unidades_vendidas
               else 0))"
    by blast
  from days r0 have d0: "Suc 0 \<in> set ws \<and> cell_at out 0 predicciones = Some (Num 2)"
    by (simp add: cell_of_def name_defs)
  have "(1::nat) < length (rows ?df)" by simp
  with days r1 have "Suc 1 \<in> set ws
          \<and> cell_at out 1 predicciones = Some (Num
              (if unidades_vendidas \<in> set (columns ?df)
                  \<and> notna (cell_of (rows ?df ! 1) unidades_vendidas)
               then num_of (cell_of (rows ?df ! 1) unidades_vendidas)
               else if unidades_vendidas \<in> set (columns ?df)
                  \<and> (\<exists>r \<in> set (rows ?df). notna (cell_of r unidades_vendidas))
               then column_mean ?df unidades_vendidas
               else 0))"
    by blast
  then have d1: "Suc 1 \<in> set ws \<and> cell_at out 1 predicciones = Some (Num 2)"
    unfolding m by (simp add: cell_of_def name_defs)
  show ?thesis using sim d0 d1 by blast
qed

text \<open>
  The lag entries of a day's row when the day is predicted. On a sorted, well-formed
  frame, in the state \<open>s\<close> in which day \<open>k + 1\<close> is predicted: \<open>lag_1\<close> of that day's row
  is the value recorded for day \<open>k\<close>, when the frame has the \<open>lag_1\<close> column; and for \<open>j\<close>
  from 2 to 7, \<open>lag_j\<close> of that day's row is the \<open>lag_{j-1}\<close> entry which the same row, of
  day \<open>k + 1\<close>, had in the sorted input frame, when the frame has both columns. The row
  stays as it is until the run ends.
\<close>

theorem lag_cascade_own_row:
  assumes "sort_values df fecha = Inr df0" and "wf_frame df" and "Suc k < length (rows df0)"
  shows "\<exists>s ws out.
      sim_loop model fc [0..<Suc k] (sim_init df0) = Inr s
    \<and> simulate_recursive_predictions df model fc d a = Inr (ws, out)
    \<and> cell_at out k predicciones = Some (Num (predictions s ! k))
    \<and> (lag_col 1 \<in> set (columns df) \<longrightarrow>
          cell_at (df_sim s) (Suc k) (lag_col 1) = Some (Num (predictions s ! k)))
    \<and> (\<forall>j \<in> {2..7}. lag_col j \<in> set (columns df) \<and> lag_col (j - 1) \<in> set (columns df) \<longrightarrow>
          cell_at (df_sim s) (Suc k) (lag_col j) = cell_at df0 (Suc k) (lag_col (j - 1)))
    \<and> (\<forall>c. c \<noteq> predicciones \<longrightarrow> cell_at out (Suc k) c = cell_at (df_sim s) (Suc k) c)"
proof -
  let ?n = "length (rows df0)"
  let ?s = "states model fc df0 (Suc k)"
  let ?p = "predictions ?s ! k"
  let ?r0 = "rows df0 ! Suc k"
  let ?h = "lag_history (states model fc df0 k)"
  have cols: "columns df0 = columns df" by (rule sort_values_shape [OF assms(1)])
  have wf0: "wf_frame df0" by (rule sort_values_wf [OF assms(1,2)])
  from assms(3) have k: "k < ?n" by simp
  have loop: "sim_loop model fc [0..<Suc k] (sim_init df0) = Inr ?s"
    by (rule sim_loop_states) (use assms(3) in simp)
  obtain ws out where sim: "simulate_recursive_predictions df model fc d a = Inr (ws, out)"
    using simulate_states [OF assms(1)] by blast
  have pk: "?p = day_pred model fc (df_sim (states model fc df0 k)) k"
    by (rule states_prediction_nth) simp
  have rec: "cell_at out k predicciones = Some (Num ?p)"
    unfolding cell_at_def simulate_out_row(1) [OF assms(1) k sim] pk by simp
  have row: "rows (df_sim ?s) ! Suc k = align_row (columns df) (fst (update_lags ?r0 ?p ?h))"
    using states_written_row [OF assms(3), of model fc] by (simp add: cols)
  have l1: "cell_at (df_sim ?s) (Suc k) (lag_col 1) = Some (Num ?p)"
    if "lag_col 1 \<in> set (columns df)"
    unfolding cell_at_def row using that
    by (simp add: align_row_def cell_of_def update_lags_lag1 [unfolded One_nat_def])
  have lj: "cell_at (df_sim ?s) (Suc k) (lag_col j) = cell_at df0 (Suc k) (lag_col (j - 1))"
    if j: "j \<in> {2..7}" and c: "lag_col j \<in> set (columns df) \<and> lag_col (j - 1) \<in> set (columns df)"
    for j
  proof -
    from c have "lag_col (j - 1) \<in> set (columns df0)" by (simp add: cols)
    from wf_row_Some [OF wf0 assms(3) this]
    obtain v where v: "?r0 (lag_col (j - 1)) = Some v" by blast
    then have "fst (update_lags ?r0 ?p ?h) (lag_col j) = Some v"
      by (simp add: update_lags_lag [OF j])
    with c v show ?thesis
      unfolding cell_at_def row by (simp add: align_row_def cell_of_def)
  qed
  have keep: "cell_at out (Suc k) c = cell_at (df_sim ?s) (Suc k) c" if "c \<noteq> predicciones" for c
    unfolding cell_at_def simulate_out_row(1) [OF assms(1,3) sim] using that by simp
  show ?thesis using loop sim rec l1 lj keep by blast
qed

theorem lag_cascade_own_row_witness:
  "\<exists>s ws out.
      sim_loop (\<lambda>X. Some 3) [] [0..<Suc 0]
        (sim_init \<lparr>columns = [fecha, lag_col 1, lag_col 2],
            rows = [[fecha \<mapsto> Num 1, lag_col 1 \<mapsto> Num 5, lag_col 2 \<mapsto> Num 6],
                    [fecha \<mapsto> Num 2, lag_col 1 \<mapsto> Num 7, lag_col 2 \<mapsto> Num 8]]\<rparr>) = Inr s
    \<and> simulate_recursive_predictions \<lparr>columns = [fecha, lag_col 1, lag_col 2],
            rows = [[fecha \<mapsto> Num 1, lag_col 1 \<mapsto> Num 5, lag_col 2 \<mapsto> Num 6],
                    [fecha \<mapsto> Num 2, lag_col 1 \<mapsto> Num 7, lag_col 2 \<mapsto> Num 8]]\<rparr>
          (\<lambda>X. Some 3) [] 0 0 = Inr (ws, out)
    \<and> cell_at out 0 predicciones = Some (Num (predictions s ! 0))
    \<and> cell_at (df_sim s) (Suc 0) (lag_col 1) = Some (Num (predictions s ! 0))
    \<and> cell_at (df_sim s) (Suc 0) (lag_col 2) = Some (Num 7)
    \<and> cell_at out (Suc 0) (lag_col 2) = Some (Num 7)"
proof -
  let ?df = "\<lparr>columns = [fecha, lag_col 1, lag_col 2],
            rows = [[fecha \<mapsto> Num 1, lag_col 1 \<mapsto> Num 5, lag_col 2 \<mapsto> Num 6],
                    [fecha \<mapsto> Num 2, lag_col 1 \<mapsto> Num 7, lag_col 2 \<mapsto> Num 8]]\<rparr>"
  have srt: "sort_values ?df fecha = Inr ?df"
    by (simp add: sort_values_def cell_of_def name_defs lag_col_simps)
  have wf: "wf_frame ?df"
    by (auto simp add: wf_frame_def)
  have n: "Suc 0 < length (rows ?df)" by simp
  have c1: "lag_col 1 \<in> set (columns ?df)" by simp
  have c2: "(2::nat) \<in> {2..7}"
    "lag_col 2 \<in> set (columns ?df) \<and> lag_col (2 - 1) \<in> set (columns ?df)" by simp_all
  have old: "cell_at ?df (Suc 0) (lag_col (2 - 1)) = Some (Num 7)"
    by (simp add: cell_at_def lag_col_simps lag_col_Suc0 name_defs)
  have ne: "lag_col 2 \<noteq> predicciones" by (simp add: lag_col_simps name_defs)
  from lag_cascade_own_row [OF srt wf n, of "\<lambda>X. Some 3" "[]" 0 0]
  obtain s ws out where
    "sim_loop (\<lambda>X. Some 3) [] [0..<Suc 0] (sim_init ?df) = Inr s"
    "simulate_recursive_predictions ?df (\<lambda>X. Some 3) [] 0 0 = Inr (ws, out)"
    "cell_at out 0 predicciones = Some (Num (predictions s ! 0))"
    "lag_col 1 \<in> set (columns ?df) \<longrightarrow>
          cell_at (df_sim s) (Suc 0) (lag_col 1) = Some (Num (predictions s ! 0))"
    "\<forall>j \<in> {2..7}. lag_col j \<in> set (columns ?df) \<and> lag_col (j - 1) \<in> set (columns ?df) \<longrightarrow>
          cell_at (df_sim s) (Suc 0) (lag_col j) = cell_at ?df (Suc 0) (lag_col (j - 1))"
    "\<forall>c. c \<noteq> predicciones \<longrightarrow> cell_at out (Suc 0) c = cell_at (df_sim s) (Suc 0) c"
    by blast
  then show ?thesis using c1 c2 old ne by metis
qed

text \<open>
  C1. The run on two days whose rows hold \<open>lag_1 = 5, lag_2 = 6\<close> and
  \<open>lag_1 = 7, lag_2 = 8\<close>, with a predictor that answers 3. When day 1 is predicted its
  \<open>lag_1\<close> is 3, the value recorded for day 0, as the claim says. Its \<open>lag_2\<close> is 7, the
  \<open>lag_1\<close> which day 1's own row held before; the claim says 5, the \<open>lag_1\<close> which the row of
  day 0 held. \<open>update_lags\<close> is given the next day's row only, so a value that has been
  \<open>lag_1\<close> is never shifted on to \<open>lag_2\<close>.
\<close>

theorem lag_shift_is_not_from_previous_day:
  "(case simulate_recursive_predictions
           \<lparr>columns = [fecha, lag_col 1, lag_col 2],
            rows = [[fecha \<mapsto> Num 1, lag_col 1 \<mapsto> Num 5, lag_col 2 \<mapsto> Num 6],
                    [fecha \<mapsto> Num 2, lag_col 1 \<mapsto> Num 7, lag_col 2 \<mapsto> Num 8]]\<rparr>
           (\<lambda>X. Some 3) [] 0 0 of
      Inl e \<Rightarrow> None
    | Inr (ws, out) \<Rightarrow> Some (ws, columns out, table out))
     = Some ([], [fecha, lag_col 1, lag_col 2, predicciones],
             [[Num 1, Num 5, Num 6, Num 3], [Num 2, Num 3, Num 7, Num 3]])"
  by (simp add: run_defs name_defs lag_col_simps lag_col_Suc0 ma7_col_def upt_rec Let_def)

text \<open>
  C8. In every run on a frame with the date column, the lag history has at most 7
  entries in every state of the loop. At the transition from day \<open>k\<close> to day \<open>k + 1\<close> the
  value recorded for day \<open>k\<close> is appended and, when that makes 8 entries, the oldest is
  dropped; the history is then the list of the values recorded for the days
  \<open>k - 6, ..., k\<close> (those that exist), all of them days before \<open>k + 1\<close>. The rolling
  average which \<open>update_lags\<close> writes on the row of day \<open>k + 1\<close> is the mean of this
  history, and it is the entry of that row in the frame, then and in the result, when
  the frame has the rolling-average column.
\<close>

theorem lag_history_window:
  assumes "sort_values df fecha = Inr df0"
  shows "\<exists>ws out. simulate_recursive_predictions df model fc d a = Inr (ws, out)
    \<and> (\<forall>k \<le> length (rows df0). \<exists>s. sim_loop model fc [0..<k] (sim_init df0) = Inr s
           \<and> length (lag_history s) \<le> 7)
    \<and> (\<forall>k. Suc k < length (rows df0) \<longrightarrow>
          (\<exists>s s'. sim_loop model fc [0..<k] (sim_init df0) = Inr s
                \<and> sim_loop model fc [0..<Suc k] (sim_init df0) = Inr s'
                \<and> lag_history s' =
                    (if length (lag_history s @ [predictions s' ! k]) > 7
                     then tl (lag_history s @ [predictions s' ! k])
                     else lag_history s @ [predictions s' ! k])
                \<and> lag_history s' =
                    map (\<lambda>j. num_of (cell_of (rows out ! j) predicciones)) [Suc k - 7..<Suc k]
                \<and> fst (update_lags (rows (df_sim s) ! Suc k) (predictions s' ! k) (lag_history s))
                      ma7_col = Some (Num (mean (lag_history s')))
                \<and> (ma7_col \<in> set (columns df) \<longrightarrow>
                      cell_at (df_sim s') (Suc k) ma7_col = Some (Num (mean (lag_history s')))
                    \<and> cell_at out (Suc k) ma7_col = Some (Num (mean (lag_history s'))))))"
proof -
  let ?n = "length (rows df0)"
  have cols: "columns df0 = columns df" by (rule sort_values_shape [OF assms])
  obtain ws out where sim: "simulate_recursive_predictions df model fc d a = Inr (ws, out)"
    using simulate_states [OF assms] by blast
  have bound: "\<exists>s. sim_loop model fc [0..<k] (sim_init df0) = Inr s \<and> length (lag_history s) \<le> 7"
    if "k \<le> ?n" for k
    using sim_loop_states [OF that, of model fc] states_history_bound [of model fc df0 k] by simp
  have trans: "\<exists>s s'. sim_loop model fc [0..<k] (sim_init df0) = Inr s
                \<and> sim_loop model fc [0..<Suc k] (sim_init df0) = Inr s'
                \<and> lag_history s' =
                    (if length (lag_history s @ [predictions s' ! k]) > 7
                     then tl (lag_history s @ [predictions s' ! k])
                     else lag_history s @ [predictions s' ! k])
                \<and> lag_history s' =
                    map (\<lambda>j. num_of (cell_of (rows out ! j) predicciones)) [Suc k - 7..<Suc k]
                \<and> fst (update_lags (rows (df_sim s) ! Suc k) (predictions s' ! k) (lag_history s))
                      ma7_col = Some (Num (mean (lag_history s')))
                \<and> (ma7_col \<in> set (columns df) \<longrightarrow>
                      cell_at (df_sim s') (Suc k) ma7_col = Some (Num (mean (lag_history s')))
                    \<and> cell_at out (Suc k) ma7_col = Some (Num (mean (lag_history s'))))"
    if lt: "Suc k < ?n" for k
  proof -
    let ?s = "states model fc df0 k"
    let ?s' = "states model fc df0 (Suc k)"
    let ?p = "predictions ?s' ! k"
    from lt have k: "k \<le> ?n" and sk: "Suc k \<le> ?n" by simp_all
    have l: "sim_loop model fc [0..<k] (sim_init df0) = Inr ?s" by (rule sim_loop_states [OF k])
    have l': "sim_loop model fc [0..<Suc k] (sim_init df0) = Inr ?s'"
      by (rule sim_loop_states [OF sk])
    have pk: "?p = day_pred model fc (df_sim ?s) k"
      by (rule states_prediction_nth) simp
    have un: "rows (df_sim ?s) ! Suc k = rows df0 ! Suc k"
      by (rule states_untouched) simp
    have h': "lag_history ?s' = snd (update_lags (rows (df_sim ?s) ! Suc k) ?p (lag_history ?s))"
      using lt by (simp add: states_Suc_history Let_def pk)
    have fifo: "lag_history ?s' =
                    (if length (lag_history ?s @ [?p]) > 7
                     then tl (lag_history ?s @ [?p])
                     else lag_history ?s @ [?p])"
      unfolding h' by (simp add: update_lags_def Let_def)
    have "lag_history ?s' = drop (Suc k - 7) (predictions ?s')"
      by (rule states_history [OF lt])
    also have "predictions ?s' = map (\<lambda>j. num_of (cell_of (rows out ! j) predicciones)) [0..<Suc k]"
      by (rule simulate_recorded [OF assms sim sk])
    also have "drop (Suc k - 7) (map (\<lambda>j. num_of (cell_of (rows out ! j) predicciones)) [0..<Suc k])
        = map (\<lambda>j. num_of (cell_of (rows out ! j) predicciones)) [Suc k - 7..<Suc k]"
      by (simp only: drop_map drop_upt) simp
    finally have window: "lag_history ?s' =
        map (\<lambda>j. num_of (cell_of (rows out ! j) predicciones)) [Suc k - 7..<Suc k]" .
    have ma: "fst (update_lags (rows (df_sim ?s) ! Suc k) ?p (lag_history ?s)) ma7_col
        = Some (Num (mean (lag_history ?s')))"
      unfolding h' by (rule update_lags_ma7)
    have row: "rows (df_sim ?s') ! Suc k =
        align_row (columns df) (fst (update_lags (rows (df_sim ?s) ! Suc k) ?p (lag_history ?s)))"
      using states_written_row [OF lt, of model fc] by (simp add: cols un)
    have cell: "cell_at (df_sim ?s') (Suc k) ma7_col = Some (Num (mean (lag_history ?s')))
         \<and> cell_at out (Suc k) ma7_col = Some (Num (mean (lag_history ?s')))"
      if c: "ma7_col \<in> set (columns df)"
    proof -
      have a: "cell_at (df_sim ?s') (Suc k) ma7_col = Some (Num (mean (lag_history ?s')))"
        unfolding cell_at_def row using c ma by (simp add: align_row_def cell_of_def)
      have "ma7_col \<noteq> predicciones" by (simp add: ma7_col_def predicciones_def)
      then have "cell_at out (Suc k) ma7_col = cell_at (df_sim ?s') (Suc k) ma7_col"
        unfolding cell_at_def simulate_out_row(1) [OF assms lt sim] by simp
      with a show ?thesis by simp
    qed
    show ?thesis using l l' fifo window ma cell by blast
  qed
  show ?thesis using sim bound trans by blast
qed

theorem lag_history_window_witness:
  "\<exists>ws out s'. simulate_recursive_predictions nine_days date_model [fecha] 0 0 = Inr (ws, out)
     \<and> sim_loop date_model [fecha] [0..<Suc 7] (sim_init nine_days) = Inr s'
     \<and> lag_history s' = [2, 3, 4, 5, 6, 7, 8]
     \<and> cell_at out (Suc 7) ma7_col = Some (Num 5)"
proof -
  have srt: "sort_values nine_days fecha = Inr nine_days"
    by (simp add: sort_values_def nine_days_def cell_of_def name_defs ma7_col_def)
  from lag_history_window [OF srt, of date_model "[fecha]" 0 0]
  obtain ws out where sim: "simulate_recursive_predictions nine_days date_model [fecha] 0 0 = Inr (ws, out)"
    and tr: "\<forall>k. Suc k < length (rows nine_days) \<longrightarrow>
          (\<exists>s s'. sim_loop date_model [fecha] [0..<k] (sim_init nine_days) = Inr s
                \<and> sim_loop date_model [fecha] [0..<Suc k] (sim_init nine_days) = Inr s'
                \<and> lag_history s' =
                    (if length (lag_history s @ [predictions s' ! k]) > 7
                     then tl (lag_history s @ [predictions s' ! k])
                     else lag_history s @ [predictions s' ! k])
                \<and> lag_history s' =
                    map (\<lambda>j. num_of (cell_of (rows out ! j) predicciones)) [Suc k - 7..<Suc k]
                \<and> fst (update_lags (rows (df_sim s) ! Suc k) (predictions s' ! k) (lag_history s))
                      ma7_col = Some (Num (mean (lag_history s')))
                \<and> (ma7_col \<in> set (columns nine_days) \<longrightarrow>
                      cell_at (df_sim s') (Suc k) ma7_col = Some (Num (mean (lag_history s')))
                    \<and> cell_at out (Suc k) ma7_col = Some (Num (mean (lag_history s')))))"
    by blast
  have "Suc 7 < length (rows nine_days)" by (simp add: nine_days_def)
  with tr obtain s' where l': "sim_loop date_model [fecha] [0..<Suc 7] (sim_init nine_days) = Inr s'"
    and w: "lag_history s' = map (\<lambda>j. num_of (cell_of (rows out ! j) predicciones)) [Suc 7 - 7..<Suc 7]"
    and m: "ma7_col \<in> set (columns nine_days) \<longrightarrow>
               cell_at out (Suc 7) ma7_col = Some (Num (mean (lag_history s')))"
    by blast
  from nine_days_run [unfolded sim]
  have cols: "columns out = [fecha, ma7_col, predicciones]"
    and tab: "table out = [[Num 1, NaN, Num 1], [Num 2, Num 1, Num 2], [Num 3, Num (3 / 2), Num 3],
           [Num 4, Num 2, Num 4], [Num 5, Num (5 / 2), Num 5], [Num 6, Num 3, Num 6],
           [Num 7, Num (7 / 2), Num 7], [Num 8, Num 4, Num 8], [Num 9, Num 5, Num 9]]"
    by simp_all
  have "length (table out) = length (rows out)" by (simp add: table_def)
  then have len: "length (rows out) = 9" by (simp add: tab)
  have cellp: "cell_of (rows out ! j) predicciones = table out ! j ! 2" if "j < 9" for j
    using table_nth [of j out 2] that by (simp add: len cols)
  have "lag_history s' = map (\<lambda>j. num_of (table out ! j ! 2)) [Suc 7 - 7..<Suc 7]"
    unfolding w by (rule map_cong) (simp_all add: cellp)
  then have h: "lag_history s' = [2, 3, 4, 5, 6, 7, 8]"
    by (simp add: tab upt_rec)
  have "ma7_col \<in> set (columns nine_days)" by (simp add: nine_days_def)
  with m have "cell_at out (Suc 7) ma7_col = Some (Num 5)"
    by (simp add: h mean_def)
  with sim l' h show ?thesis by blast
qed

text \<open>
  C2. The clamp \<open>max(0, pred)\<close> is inside the \<open>try\<close> block; the value of the \<open>except\<close>
  branch is recorded as it is. One day with historical target -3 and a predictor that
  raises: the value recorded is -3.
\<close>

theorem fallback_value_unclamped:
  "(case simulate_recursive_predictions
           \<lparr>columns = [fecha, unidades_vendidas],
            rows = [[fecha \<mapsto> Num 1, unidades_vendidas \<mapsto> Num (- 3)]]\<rparr>
           (\<lambda>X. None) [] 0 0 of
      Inl e \<Rightarrow> None
    | Inr (ws, out) \<Rightarrow> Some (ws, columns out, table out))
     = Some ([1], [fecha, unidades_vendidas, predicciones], [[Num 1, Num (- 3), Num (- 3)]])"
  by (simp add: run_defs name_defs upt_rec Let_def)

text \<open>
  C4. When no row matches the selected product, the simulate button reports that no
  data was found and stops: the forecast is not run and there is no prediction
  series. When some row matches, that report is never given, whatever the predictor
  does: with the date column present the run finishes with one prediction per
  selected row, and prediction failures are among its warnings.
\<close>

theorem empty_selection_stops:
  "(rows (boolean_mask selected df) = [] \<longrightarrow>
      simulate_button selected df dsc adj model fc = NoDataFound)
 \<and> (rows (boolean_mask selected df) \<noteq> [] \<longrightarrow>
      simulate_button selected df dsc adj model fc \<noteq> NoDataFound)
 \<and> (rows (boolean_mask selected df) \<noteq> [] \<and> fecha \<in> set (columns df) \<longrightarrow>
      (\<exists>ws out. simulate_button selected df dsc adj model fc = Finished (ws, out)
          \<and> length (rows out) = length (rows (boolean_mask selected df))))"
proof -
  let ?sel = "boolean_mask selected df"
  let ?adj = "apply_competition_scenario (apply_discount_to_dataframe ?sel dsc) adj"
  have empty: "simulate_button selected df dsc adj model fc = NoDataFound" if "rows ?sel = []"
    using that by (simp add: simulate_button_def)
  have run: "simulate_button selected df dsc adj model fc =
      (case simulate_recursive_predictions ?adj model fc dsc adj of
         Inl e \<Rightarrow> Raised e | Inr res \<Rightarrow> Finished res)" if "rows ?sel \<noteq> []"
    using that by (simp add: simulate_button_def Let_def)
  have nonempty: "simulate_button selected df dsc adj model fc \<noteq> NoDataFound" if "rows ?sel \<noteq> []"
    unfolding run [OF that] by (simp split: sum.splits)
  have fin: "\<exists>ws out. simulate_button selected df dsc adj model fc = Finished (ws, out)
          \<and> length (rows out) = length (rows ?sel)"
    if ne: "rows ?sel \<noteq> []" and f: "fecha \<in> set (columns df)"
  proof -
    have "columns ?sel = columns df" by (simp add: boolean_mask_def)
    with f have "fecha \<in> set (columns ?sel)" by simp
    then have "fecha \<in> set (columns (apply_discount_to_dataframe ?sel dsc))"
      using apply_discount_shape(1) [where df = ?sel and d = dsc] by blast
    then have "fecha \<in> set (columns ?adj)"
      using apply_competition_shape(1)
        [where df = "apply_discount_to_dataframe ?sel dsc" and adj = adj]
      by blast
    then obtain df0 where srt: "sort_values ?adj fecha = Inr df0"
      using sort_values_ok by blast
    have n: "length (rows df0) = length (rows ?sel)"
      using sort_values_shape(3) [OF srt]
      by (simp add: apply_discount_shape apply_competition_shape)
    obtain ws out where sim: "simulate_recursive_predictions ?adj model fc dsc adj = Inr (ws, out)"
      using simulate_states [OF srt] by blast
    have "length (rows out) = length (rows df0)"
      using sim unfolding simulate_states [OF srt]
      by (auto simp add: set_column_list_def states_shape)
    with sim n show ?thesis unfolding run [OF ne] by simp
  qed
  show ?thesis using empty nonempty fin by blast
qed

theorem empty_selection_stops_witness:
  "simulate_button (\<lambda>r. False)
      \<lparr>columns = [fecha], rows = [[fecha \<mapsto> Num 1]]\<rparr> 0 0 (\<lambda>X. None) [] = NoDataFound
 \<and> (\<exists>ws out. simulate_button (\<lambda>r. True)
      \<lparr>columns = [fecha], rows = [[fecha \<mapsto> Num 1]]\<rparr> 0 0 (\<lambda>X. None) [] = Finished (ws, out)
       \<and> length (rows out) = 1)"
proof -
  let ?df = "\<lparr>columns = [fecha], rows = [[fecha \<mapsto> Num 1]]\<rparr>"
  have a: "rows (boolean_mask (\<lambda>r. False) ?df) = []" by (simp add: boolean_mask_def)
  have b: "rows (boolean_mask (\<lambda>r. True) ?df) \<noteq> [] \<and> fecha \<in> set (columns ?df)"
    by (simp add: boolean_mask_def)
  have c: "length (rows (boolean_mask (\<lambda>r. True) ?df)) = 1" by (simp add: boolean_mask_def)
  from empty_selection_stops [of "\<lambda>r. False" ?df 0 0 "\<lambda>X. None" "[]"] a
  have "simulate_button (\<lambda>r. False) ?df 0 0 (\<lambda>X. None) [] = NoDataFound" by blast
  moreover from empty_selection_stops [of "\<lambda>r. True" ?df 0 0 "\<lambda>X. None" "[]"] b
  have "\<exists>ws out. simulate_button (\<lambda>r. True) ?df 0 0 (\<lambda>X. None) [] = Finished (ws, out)
       \<and> length (rows out) = length (rows (boolean_mask (\<lambda>r. True) ?df))"
    by blast
  ultimately show ?thesis unfolding c by blast
qed

text \<open>
  C7. \<open>prepare_prediction_data\<close> raises nothing and returns a frame whose columns are
  the feature set, in its order, with as many rows as its input; an entry of a
  required column is the input's entry when the input has the column and 0 when it
  has not, whatever the name of the column; the other columns of the input are not
  in the result. On the store, every frame that existed before the call is
  unchanged, the input among them, and the result is a new frame.
\<close>

theorem feature_resolver_contract:
  "(\<exists>X. prepare_prediction_data df fc = Inr X
       \<and> columns X = fc \<and> length (rows X) = length (rows df)
       \<and> (\<forall>i < length (rows df). \<forall>c. cell_at X i c =
             (if c \<in> set fc then (if c \<in> set (columns df) then cell_at df i c else Some (Num 0))
              else None)))
 \<and> (\<forall>h a. a < length h \<longrightarrow>
       (\<exists>b h'. prepare_prediction_data_st a fc h = Inr (b, h')
           \<and> (\<forall>x < length h. h' ! x = h ! x) \<and> length h \<le> b \<and> b < length h'
           \<and> prepare_prediction_data (h ! a) fc = Inr (h' ! b)))"
proof -
  let ?X = "\<lparr>columns = fc, rows = map (resolve_row (columns df) fc) (rows df)\<rparr>"
  have p: "prepare_prediction_data df fc = Inr ?X" by (rule prepare_prediction_data_Inr)
  have cells: "\<forall>i < length (rows df). \<forall>c. cell_at ?X i c =
             (if c \<in> set fc then (if c \<in> set (columns df) then cell_at df i c else Some (Num 0))
              else None)"
    using cell_at_resolve [OF p] by blast
  have v: "\<exists>X. prepare_prediction_data df fc = Inr X
       \<and> columns X = fc \<and> length (rows X) = length (rows df)
       \<and> (\<forall>i < length (rows df). \<forall>c. cell_at X i c =
             (if c \<in> set fc then (if c \<in> set (columns df) then cell_at df i c else Some (Num 0))
              else None))"
    using p cells by (intro exI [of _ ?X]) simp
  have s: "\<exists>b h'. prepare_prediction_data_st a fc h = Inr (b, h')
           \<and> (\<forall>x < length h. h' ! x = h ! x) \<and> length h \<le> b \<and> b < length h'
           \<and> prepare_prediction_data (h ! a) fc = Inr (h' ! b)"
    if "a < length h" for h a
    using prepare_st_eq [OF that, of fc]
    by (simp add: prepare_prediction_data_Inr nth_append)
  show ?thesis using v s by blast
qed

theorem feature_resolver_contract_witness:
  "\<exists>X b h'. prepare_prediction_data
        \<lparr>columns = [precio_venta, precio_base],
         rows = [[precio_venta \<mapsto> Num 1, precio_base \<mapsto> Num 2]]\<rparr>
        [precio_base, ''nombre_h_Widget'', ratio_precio] = Inr X
     \<and> columns X = [precio_base, ''nombre_h_Widget'', ratio_precio]
     \<and> cell_at X 0 precio_base = Some (Num 2)
     \<and> cell_at X 0 ''nombre_h_Widget'' = Some (Num 0)
     \<and> cell_at X 0 ratio_precio = Some (Num 0)
     \<and> cell_at X 0 precio_venta = None
     \<and> prepare_prediction_data_st 0 [precio_base, ''nombre_h_Widget'', ratio_precio]
          [\<lparr>columns = [precio_venta, precio_base],
            rows = [[precio_venta \<mapsto> Num 1, precio_base \<mapsto> Num 2]]\<rparr>] = Inr (b, h')
     \<and> h' ! 0 = \<lparr>columns = [precio_venta, precio_base],
                  rows = [[precio_venta \<mapsto> Num 1, precio_base \<mapsto> Num 2]]\<rparr>"
proof -
  let ?df = "\<lparr>columns = [precio_venta, precio_base],
         rows = [[precio_venta \<mapsto> Num 1, precio_base \<mapsto> Num 2]]\<rparr>"
  let ?fc = "[precio_base, ''nombre_h_Widget'', ratio_precio]"
  note t = feature_resolver_contract [of ?df ?fc]
  from t obtain X where x: "prepare_prediction_data ?df ?fc = Inr X" "columns X = ?fc"
    and cells: "\<forall>i < length (rows ?df). \<forall>c. cell_at X i c =
             (if c \<in> set ?fc then (if c \<in> set (columns ?df) then cell_at ?df i c else Some (Num 0))
              else None)"
    by blast
  have i: "(0::nat) < length (rows ?df)" by simp
  from cells i have c: "cell_at X 0 c =
             (if c \<in> set ?fc then (if c \<in> set (columns ?df) then cell_at ?df 0 c else Some (Num 0))
              else None)" for c
    by blast
  have c1: "cell_at X 0 precio_base = Some (Num 2)"
    using c [of "precio_base"] by (simp add: cell_at_def col_defs)
  have c2: "cell_at X 0 ''nombre_h_Widget'' = Some (Num 0)"
    using c [of "''nombre_h_Widget''"] by (simp add: cell_at_def col_defs)
  have c3: "cell_at X 0 ratio_precio = Some (Num 0)"
    using c [of "ratio_precio"] by (simp add: cell_at_def col_defs)
  have c4: "cell_at X 0 precio_venta = None"
    using c [of "precio_venta"] by (simp add: cell_at_def col_defs)
  have "(0::nat) < length [?df]" by simp
  with t obtain b h' where s: "prepare_prediction_data_st 0 ?fc [?df] = Inr (b, h')"
    and keep: "\<forall>x < length [?df]. h' ! x = [?df] ! x"
    by blast
  from keep have k: "h' ! 0 = ?df" by simp
  show ?thesis using x c1 c2 c3 c4 s k by blast
qed

text \<open>
  C9. \<open>apply_discount_to_dataframe\<close> and \<open>apply_competition_scenario\<close> leave every frame of
  the store as it was and return a new frame; \<open>simulate_recursive_predictions\<close> leaves
  every frame of the store as it was and returns a new frame, its lag history starting
  empty in every run. So after scenario A has run on the base frame, the frames that
  existed before are unchanged, and scenario B run afterwards returns the warnings and
  the frame that B returns when run alone. The predictor is a function: it keeps no
  state between calls.
\<close>

theorem scenario_independence:
  assumes "a < length h" and "run_scenario_st a dA adjA model fc h = Inr (wsA, rA, hA)"
  shows "apply_discount_to_dataframe_st a d h = (length h, h @ [apply_discount_to_dataframe (h ! a) d])
     \<and> apply_competition_scenario_st a adj h = (length h, h @ [apply_competition_scenario (h ! a) adj])
     \<and> (\<forall>ws b h'. simulate_recursive_predictions_st a model fc d adj h = Inr (ws, b, h') \<longrightarrow>
           simulate_recursive_predictions (h ! a) model fc d adj = Inr (ws, h' ! b)
           \<and> length h \<le> b \<and> (\<forall>x < length h. h' ! x = h ! x))
     \<and> (\<forall>x < length h. hA ! x = h ! x)
     \<and> result_of (run_scenario_st a dB adjB model fc hA)
         = result_of (run_scenario_st a dB adjB model fc h)
     \<and> result_of (run_scenario_st a dB adjB model fc h) = run_scenario (h ! a) dB adjB model fc"
proof -
  have sim: "\<forall>ws b h'. simulate_recursive_predictions_st a model fc d adj h = Inr (ws, b, h') \<longrightarrow>
           simulate_recursive_predictions (h ! a) model fc d adj = Inr (ws, h' ! b)
           \<and> length h \<le> b \<and> (\<forall>x < length h. h' ! x = h ! x)"
    using simulate_st_eq [OF assms(1), of model fc d adj] by auto
  from run_scenario_st_eq [OF assms(1), of dA adjA model fc]
  have keepA: "\<forall>x < length h. hA ! x = h ! x" and lenA: "length h \<le> rA" "rA < length hA"
    unfolding assms(2) by simp_all
  from lenA assms(1) have aA: "a < length hA" by simp
  from keepA assms(1) have same: "hA ! a = h ! a" by simp
  have b1: "result_of (run_scenario_st a dB adjB model fc hA) = run_scenario (h ! a) dB adjB model fc"
    using result_of_run_scenario_st [OF aA, of dB adjB model fc] by (simp add: same)
  have b2: "result_of (run_scenario_st a dB adjB model fc h) = run_scenario (h ! a) dB adjB model fc"
    by (rule result_of_run_scenario_st [OF assms(1)])
  show ?thesis
    using apply_discount_st_eq [OF assms(1), of d] apply_competition_st_eq [OF assms(1), of adj]
      sim keepA b1 b2
    by simp
qed

theorem scenario_independence_witness:
  "\<exists>wsA rA hA. run_scenario_st 0 10 5 (\<lambda>X. Some 3) [] [one_day] = Inr (wsA, rA, hA)
     \<and> hA ! 0 = one_day
     \<and> result_of (run_scenario_st 0 20 0 (\<lambda>X. Some 3) [] hA)
         = result_of (run_scenario_st 0 20 0 (\<lambda>X. Some 3) [] [one_day])
     \<and> apply_discount_to_dataframe_st 0 20 [one_day]
         = (1, [one_day, apply_discount_to_dataframe one_day 20])"
proof -
  have a: "(0::nat) < length [one_day]" by simp
  have "\<exists>wsA rA hA. run_scenario_st 0 10 5 (\<lambda>X. Some 3) [] [one_day] = Inr (wsA, rA, hA)"
  proof (cases "run_scenario_st 0 10 5 (\<lambda>X. Some 3) [] [one_day]")
    case (Inl e)
    with run_scenario_st_eq [OF a, of 10 5 "\<lambda>X. Some 3" "[]"] one_day_scenario_runs
    show ?thesis by simp
  next
    case (Inr res)
    then show ?thesis by (cases res) auto
  qed
  then obtain wsA rA hA where
    A: "run_scenario_st 0 10 5 (\<lambda>X. Some 3) [] [one_day] = Inr (wsA, rA, hA)"
    by blast
  note t = scenario_independence [OF a A, of 20 0 20 0]
  from t have "\<forall>x < length [one_day]. hA ! x = [one_day] ! x" by blast
  then have k: "hA ! 0 = one_day" by simp
  from t have r: "result_of (run_scenario_st 0 20 0 (\<lambda>X. Some 3) [] hA)
         = result_of (run_scenario_st 0 20 0 (\<lambda>X. Some 3) [] [one_day])"
    by blast
  from t have d: "apply_discount_to_dataframe_st 0 20 [one_day]
         = (1, [one_day, apply_discount_to_dataframe one_day 20])"
    by simp
  show ?thesis using A k r d by blast
qed

end
